theory Spec2Isabelle
  imports Main "HOL-Library.Sublist" "HOL-Library.AList"
begin

section \<open>Strings and paths\<close>

text \<open>
  JavaScript strings are modelled as \<open>string\<close>. \<open>startsWith\<close> is
  \<^verbatim>\<open>String.prototype.startsWith\<close> and \<open>joinWith\<close> is \<^verbatim>\<open>Array.prototype.join\<close>.
\<close>

definition startsWith :: "string \<Rightarrow> string \<Rightarrow> bool" where
  "startsWith s p = prefix p s"

fun joinWith :: "string \<Rightarrow> string list \<Rightarrow> string" where
  "joinWith sep [] = []"
| "joinWith sep [x] = x"
| "joinWith sep (x # y # ys) = x @ sep @ joinWith sep (y # ys)"

text \<open>
  The generator calls \<^verbatim>\<open>path.resolve\<close> and \<^verbatim>\<open>path.relative\<close> of Node's \<^verbatim>\<open>node:path\<close>,
  which is not code of the repository. The generator takes the two functions through the
  record \<open>path_ops\<close>, so every general statement below holds for any implementation of them.
\<close>

record path_ops =
  resolve :: "string \<Rightarrow> string \<Rightarrow> string"
  relative :: "string \<Rightarrow> string \<Rightarrow> string"

text \<open>
  \<open>posix\<close> is an executable instance for POSIX paths, following the behaviour Node
  documents: \<^verbatim>\<open>resolve\<close> walks its arguments from the right until an absolute one is met
  (the working directory comes last), then normalises the segments (empty and \<^verbatim>\<open>.\<close>
  segments vanish, \<^verbatim>\<open>..\<close> removes the segment before it and is ignored at the root);
  \<^verbatim>\<open>relative\<close> resolves both paths, strips their common leading segments and climbs with
  one \<^verbatim>\<open>..\<close> for every remaining segment of the first. It is used to evaluate the
  generator on concrete paths.
\<close>

fun splitSlash :: "string \<Rightarrow> string list" where
  "splitSlash [] = [[]]"
| "splitSlash (c # cs) =
     (if c = CHR ''/'' then [] # splitSlash cs
      else (case splitSlash cs of [] \<Rightarrow> [[c]] | w # ws \<Rightarrow> (c # w) # ws))"

fun normalizeSegs :: "string list \<Rightarrow> string list \<Rightarrow> string list" where
  "normalizeSegs acc [] = rev acc"
| "normalizeSegs acc (seg # segs) =
     (if seg = [] \<or> seg = ''.'' then normalizeSegs acc segs
      else if seg = ''..'' then normalizeSegs (tl acc) segs
      else normalizeSegs (seg # acc) segs)"

fun resolveJoin :: "string list \<Rightarrow> string" where
  "resolveJoin [] = []"
| "resolveJoin (p # ps) =
     (if p = [] then resolveJoin ps
      else if hd p = CHR ''/'' then p
      else resolveJoin ps @ ''/'' @ p)"

definition posixSegments :: "string \<Rightarrow> string list \<Rightarrow> string list" where
  "posixSegments cwd args = normalizeSegs [] (splitSlash (resolveJoin (rev args @ [cwd])))"

definition posixResolve :: "string \<Rightarrow> string \<Rightarrow> string \<Rightarrow> string" where
  "posixResolve cwd a b = ''/'' @ joinWith ''/'' (posixSegments cwd [a, b])"

fun dropCommon :: "'a list \<Rightarrow> 'a list \<Rightarrow> 'a list \<times> 'a list" where
  "dropCommon (x # xs) (y # ys) = (if x = y then dropCommon xs ys else (x # xs, y # ys))"
| "dropCommon xs ys = (xs, ys)"

definition posixRelative :: "string \<Rightarrow> string \<Rightarrow> string \<Rightarrow> string" where
  "posixRelative cwd from to =
     (case dropCommon (posixSegments cwd [from]) (posixSegments cwd [to]) of
        (up, down) \<Rightarrow> joinWith ''/'' (replicate (length up) ''..'' @ down))"

definition posix :: "string \<Rightarrow> path_ops" where
  "posix cwd = \<lparr> resolve = posixResolve cwd, relative = posixRelative cwd \<rparr>"

text \<open>
  A path lies underneath a directory when the directory's segments are a proper leading part
  of the path's segments.
\<close>

definition underneath :: "string \<Rightarrow> string \<Rightarrow> string \<Rightarrow> bool" where
  "underneath cwd root p =
     strict_prefix (posixSegments cwd [root]) (posixSegments cwd [p])"


section \<open>The test files generator (src/gen/index.ts)\<close>

subsection \<open>Data\<close>

record import_test_from =
  itf_file :: string
  varName :: "string option"

record bdd_config =
  outputDir :: string
  featuresRoot :: string
  importTestFrom :: "import_test_from option"
  tags :: "string option"
  verbose :: bool

text \<open>The part of cucumber's run configuration that the generator reads.\<close>

record run_configuration =
  paths :: "string list"
  requirePaths :: "string list"
  importPaths :: "string list"
  tsNodeRegister :: bool

record gherkin_document =
  uri :: string
  pickles :: "string list"

text \<open>
  A parse error of the features loader: \<^verbatim>\<open>source.uri\<close>, \<^verbatim>\<open>source.location\<close> (line and
  column) and \<^verbatim>\<open>message\<close>.
\<close>

record source_reference =
  sr_uri :: string
  location :: "(nat \<times> nat) option"

record parse_error =
  source :: source_reference
  message :: string

text \<open>
  The features loader (cucumber/loadFeatures.ts, not among the sources) hands over the parse
  errors of the Gherkin parser, which is not code of the repository. The parser sets the
  location of every error and starts the message of the error with it, written
  \<^verbatim>\<open>(line:column)\<close> in decimal digits and followed by a colon, a space and the text.
  \<open>loaderParseError\<close> builds an error as the loader hands it over, and \<open>asLoaded\<close> tells
  whether an error has this form.
\<close>

fun showNat :: "nat \<Rightarrow> string" where
  "showNat n =
     (if n < 10 then [''0123456789'' ! n]
      else showNat (n div 10) @ [''0123456789'' ! (n mod 10)])"

declare showNat.simps [simp del]

definition locationText :: "nat \<Rightarrow> nat \<Rightarrow> string" where
  "locationText line column = ''('' @ showNat line @ '':'' @ showNat column @ '')''"

definition locationOf :: "parse_error \<Rightarrow> string" where
  "locationOf pe =
     (case location (source pe) of
        None \<Rightarrow> []
      | Some (line, column) \<Rightarrow> locationText line column)"

definition asLoaded :: "parse_error \<Rightarrow> bool" where
  "asLoaded pe = (location (source pe) \<noteq> None \<and> startsWith (message pe) (locationOf pe))"

definition loaderParseError :: "string \<Rightarrow> nat \<Rightarrow> nat \<Rightarrow> string \<Rightarrow> parse_error" where
  "loaderParseError file_uri line column txt =
     \<lparr> source = \<lparr> sr_uri = file_uri, location = Some (line, column) \<rparr>,
       message = locationText line column @ '': '' @ txt \<rparr>"

text \<open>
  \<^verbatim>\<open>TestFile\<close> (gen/testFile.ts) is not among the sources. The generator reads three
  members of a built file (\<^verbatim>\<open>outputPath\<close>, \<^verbatim>\<open>testCount\<close>, \<^verbatim>\<open>undefinedSteps\<close>) and
  calls \<^verbatim>\<open>save\<close>; what \<^verbatim>\<open>build\<close> computes from a document is the parameter
  \<open>assemble\<close> of the environment.
\<close>

record test_file =
  gherkinDocument :: gherkin_document
  outputPath :: string
  testCount :: nat
  undefinedSteps :: "string list"
  lines :: "string list"

text \<open>
  Modelled from the spec: \<^verbatim>\<open>exit(...messages)\<close> (utils/exit.ts, not among the sources) is
  fatal: it stops all further work of the generation pass and carries the messages it was
  given. The error value keeps the arguments of the call.
\<close>

datatype exit_error = ExitError "string list"

text \<open>What a generation pass does to the outside world, in program order.\<close>

datatype event =
    WarnTsNodeRegister
  | LogLoadingFeatures string
  | LogLoadedFeatures nat
  | LogLoadingSteps string
  | LogLoadedSteps nat
  | RequireOrImport string
  | SnippetsPrint "test_file list"
  | LogClearing nat
  | FsRm string
  | FileSave test_file
  | LogGenerated string
  | LogGeneratedFiles nat

fun mutatesFs :: "event \<Rightarrow> bool" where
  "mutatesFs (FsRm p) = True"
| "mutatesFs (FileSave f) = True"
| "mutatesFs e = False"

text \<open>
  Everything a pass reads from its collaborators: the two directories, the loaded cucumber
  configuration, what the features loader holds after \<^verbatim>\<open>load\<close>, the step definitions, the
  module flag \<^verbatim>\<open>hasCustomTest\<close>, the path functions and the glob matcher of fast-glob.
\<close>

record gen_env =
  config :: bdd_config
  configDir :: string
  cwd :: string
  pathOps :: path_ops
  runConfiguration :: run_configuration
  parseErrors :: "parse_error list"
  documentsCount :: nat
  documentsWithPickles :: "gherkin_document list"
  stepDefinitions :: "string list"
  decoratorSteps :: "string list"
  hasCustomTest :: bool
  assemble :: "gherkin_document \<Rightarrow> string \<Rightarrow> nat \<times> string list \<times> string list"
  convertPathToPattern :: "string \<Rightarrow> string"
  globMatch :: "string \<Rightarrow> string \<Rightarrow> bool"

text \<open>
  The generator's mutable state: its \<^verbatim>\<open>files\<close> and \<^verbatim>\<open>supportCodeLibrary\<close> members, the
  disk (path and content of every file) and the trace of events so far.
\<close>

record gen_state =
  files :: "test_file list"
  supportCodeLibrary :: "string list"
  disk :: "(string \<times> string list) list"
  trace :: "event list"

type_synonym 'a action = "gen_state \<Rightarrow> (exit_error + 'a) \<times> gen_state"

definition emit :: "event \<Rightarrow> gen_state \<Rightarrow> gen_state" where
  "emit e s = s\<lparr> trace := trace s @ [e] \<rparr>"

definition andThen :: "unit action \<Rightarrow> unit action \<Rightarrow> unit action" where
  "andThen f g s = (case f s of (Inl e, s') \<Rightarrow> (Inl e, s') | (Inr u, s') \<Rightarrow> g s')"

subsection \<open>Operations\<close>

definition warnForTsNodeRegister :: "gen_env \<Rightarrow> gen_state \<Rightarrow> gen_state" where
  "warnForTsNodeRegister env s =
     (if tsNodeRegister (runConfiguration env) then emit WarnTsNodeRegister s else s)"

definition loadCucumberConfig :: "gen_env \<Rightarrow> unit action" where
  "loadCucumberConfig env s = (Inr (), warnForTsNodeRegister env s)"

definition parseErrorLine :: "parse_error \<Rightarrow> string" where
  "parseErrorLine parseError =
     ''Parse error in '' @ [CHR 0x22] @ sr_uri (source parseError) @ [CHR 0x22] @ '' ''
       @ message parseError"

definition handleParseErrors :: "gen_env \<Rightarrow> unit action" where
  "handleParseErrors env s =
     (if parseErrors env \<noteq> []
      then (Inl (ExitError [joinWith [CHR 0x0A] (map parseErrorLine (parseErrors env))]), s)
      else (Inr (), s))"

definition loadFeatures :: "gen_env \<Rightarrow> unit action" where
  "loadFeatures env s =
     (case handleParseErrors env
             (emit (LogLoadingFeatures (joinWith '', '' (paths (runConfiguration env)))) s) of
        (Inl e, s') \<Rightarrow> (Inl e, s')
      | (Inr u, s') \<Rightarrow> (Inr (), emit (LogLoadedFeatures (documentsCount env)) s'))"

definition loadDecoratorSteps :: "gen_env \<Rightarrow> gen_state \<Rightarrow> gen_state" where
  "loadDecoratorSteps env s =
     (case importTestFrom (config env) of
        None \<Rightarrow> s
      | Some itf \<Rightarrow>
          (emit (RequireOrImport (itf_file itf)) s)
            \<lparr> supportCodeLibrary := supportCodeLibrary s @ decoratorSteps env \<rparr>)"

definition loadSteps :: "gen_env \<Rightarrow> unit action" where
  "loadSteps env s =
     (let s1 = emit (LogLoadingSteps
                 (joinWith '', '' (requirePaths (runConfiguration env)
                                    @ importPaths (runConfiguration env)))) s;
          s2 = loadDecoratorSteps env (s1\<lparr> supportCodeLibrary := stepDefinitions env \<rparr>)
      in (Inr (), emit (LogLoadedSteps (length (supportCodeLibrary s2))) s2))"

definition getSpecPathByFeaturePath :: "gen_env \<Rightarrow> string \<Rightarrow> exit_error + string" where
  "getSpecPathByFeaturePath env relFeaturePath =
     (let absFeaturePath = resolve (pathOps env) (configDir env) relFeaturePath;
          relOutputPath = relative (pathOps env) (featuresRoot (config env)) absFeaturePath
      in if startsWith relOutputPath ''..''
         then Inl (ExitError
                [''All feature files should be located underneath featuresRoot.'',
                 ''Please change featuresRoot or paths in configuration.'' @ [CHR 0x0A],
                 ''featureFile: '' @ absFeaturePath @ [CHR 0x0A],
                 ''featuresRoot: '' @ featuresRoot (config env) @ [CHR 0x0A]])
         else Inr (resolve (pathOps env) (outputDir (config env)) relOutputPath
                     @ ''.spec.js''))"

definition newTestFileBuild :: "gen_env \<Rightarrow> gherkin_document \<Rightarrow> string \<Rightarrow> test_file" where
  "newTestFileBuild env doc path =
     (case assemble env doc path of
        (n, undefs, ls) \<Rightarrow>
          \<lparr> gherkinDocument = doc, outputPath = path, testCount = n,
            undefinedSteps = undefs, lines = ls \<rparr>)"

text \<open>
  The \<^verbatim>\<open>map\<close> of \<^verbatim>\<open>buildFiles\<close>: documents are visited in order, and the first
  \<^verbatim>\<open>exit\<close> of the path derivation ends the whole map.
\<close>

fun builtFiles :: "gen_env \<Rightarrow> gherkin_document list \<Rightarrow> exit_error + test_file list" where
  "builtFiles env [] = Inr []"
| "builtFiles env (doc # docs) =
     (case getSpecPathByFeaturePath env (uri doc) of
        Inl e \<Rightarrow> Inl e
      | Inr path \<Rightarrow>
          (case builtFiles env docs of
             Inl e \<Rightarrow> Inl e
           | Inr fs \<Rightarrow> Inr (newTestFileBuild env doc path # fs)))"

definition buildFiles :: "gen_env \<Rightarrow> unit action" where
  "buildFiles env s =
     (case builtFiles env (documentsWithPickles env) of
        Inl e \<Rightarrow> (Inl e, s)
      | Inr fs \<Rightarrow> (Inr (), s\<lparr> files := filter (\<lambda>f. testCount f > 0) fs \<rparr>))"

definition checkUndefinedSteps :: "gen_env \<Rightarrow> unit action" where
  "checkUndefinedSteps env s =
     (let undefinedStepsCount =
            foldl (\<lambda>sum f. sum + length (undefinedSteps f)) 0 (files s)
      in if undefinedStepsCount > 0
         then (Inl (ExitError []), emit (SnippetsPrint (files s)) s)
         else (Inr (), s))"

definition checkImportTestFrom :: "gen_env \<Rightarrow> unit action" where
  "checkImportTestFrom env s =
     (if hasCustomTest env \<and> importTestFrom (config env) = None
      then (Inl (ExitError
              [''When using custom '' @ [CHR 0x22] @ ''test'' @ [CHR 0x22]
                 @ '' function in createBdd() you should'',
               ''set '' @ [CHR 0x22] @ ''importTestFrom'' @ [CHR 0x22]
                 @ '' config option that points to file exporting custom test.'']),
            s)
      else (Inr (), s))"

definition fsRm :: "string \<Rightarrow> gen_state \<Rightarrow> gen_state" where
  "fsRm p s = emit (FsRm p) (s\<lparr> disk := filter (\<lambda>entry. fst entry \<noteq> p) (disk s) \<rparr>)"

definition clearOutputDir :: "gen_env \<Rightarrow> unit action" where
  "clearOutputDir env s =
     (let pattern = convertPathToPattern env (outputDir (config env)) @ ''/**/*.spec.js'';
          testFiles = filter (globMatch env pattern) (map fst (disk s));
          s1 = emit (LogClearing (length testFiles)) s
      in (Inr (), foldl (\<lambda>st testFile. fsRm testFile st) s1 testFiles))"

text \<open>
  Modelled from the spec: \<^verbatim>\<open>TestFile.save\<close> (gen/testFile.ts, not among the sources) writes
  the file's content at its output path.
\<close>

definition save :: "test_file \<Rightarrow> gen_state \<Rightarrow> gen_state" where
  "save f s = emit (FileSave f) (s\<lparr> disk := AList.update (outputPath f) (lines f) (disk s) \<rparr>)"

definition saveFiles :: "gen_env \<Rightarrow> unit action" where
  "saveFiles env s =
     (let s1 = foldl (\<lambda>st f.
                  emit (LogGenerated (relative (pathOps env) (cwd env) (outputPath f)))
                    (save f st)) s (files s)
      in (Inr (), emit (LogGeneratedFiles (length (files s1))) s1))"

text \<open>
  Modelled from the spec: \<^verbatim>\<open>withExitHandler\<close> (utils/exit.ts, not among the sources)
  reports a fatal error to the caller as the failure of the whole pass. The outcome of a pass
  is either \<open>Exited\<close> with the error or \<open>Completed\<close>.
\<close>

datatype outcome = Exited exit_error | Completed

definition withExitHandler :: "unit action \<Rightarrow> gen_state \<Rightarrow> outcome \<times> gen_state" where
  "withExitHandler fn s = (case fn s of (Inl e, s') \<Rightarrow> (Exited e, s') | (Inr u, s') \<Rightarrow> (Completed, s'))"

text \<open>
  \<^verbatim>\<open>generate\<close> starts \<^verbatim>\<open>loadFeatures\<close> and \<^verbatim>\<open>loadSteps\<close> together and awaits both. The
  model runs \<^verbatim>\<open>loadFeatures\<close> to its end before \<^verbatim>\<open>loadSteps\<close>: an exit of
  \<^verbatim>\<open>loadFeatures\<close> ends the pass, and the order in which the log lines of the two loads
  interleave is not modelled.
\<close>

definition generate :: "gen_env \<Rightarrow> gen_state \<Rightarrow> outcome \<times> gen_state" where
  "generate env =
     withExitHandler
       (andThen (loadCucumberConfig env)
       (andThen (loadFeatures env)
       (andThen (loadSteps env)
       (andThen (buildFiles env)
       (andThen (checkUndefinedSteps env)
       (andThen (checkImportTestFrom env)
       (andThen (clearOutputDir env)
                (saveFiles env))))))))"


text \<open>The intermediate values of the path derivation, for the statements below.\<close>

definition absFeaturePath :: "gen_env \<Rightarrow> string \<Rightarrow> string" where
  "absFeaturePath env relFeaturePath = resolve (pathOps env) (configDir env) relFeaturePath"

definition relOutputPath :: "gen_env \<Rightarrow> string \<Rightarrow> string" where
  "relOutputPath env relFeaturePath =
     relative (pathOps env) (featuresRoot (config env)) (absFeaturePath env relFeaturePath)"

text \<open>The files \<^verbatim>\<open>buildFiles\<close> keeps, and what a trace shows of the file system work.\<close>

definition kept :: "test_file list \<Rightarrow> test_file list" where
  "kept fs = filter (\<lambda>f. testCount f > 0) fs"

definition mutations :: "gen_state \<Rightarrow> event list" where
  "mutations s = filter mutatesFs (trace s)"

fun savedOf :: "event \<Rightarrow> test_file list" where
  "savedOf (FileSave f) = [f]"
| "savedOf e = []"

definition saved :: "gen_state \<Rightarrow> test_file list" where
  "saved s = concat (map savedOf (trace s))"

fun totalOf :: "event \<Rightarrow> nat list" where
  "totalOf (LogGeneratedFiles n) = [n]"
| "totalOf e = []"

definition reportedTotals :: "gen_state \<Rightarrow> nat list" where
  "reportedTotals s = concat (map totalOf (trace s))"

fun snippetsOf :: "event \<Rightarrow> test_file list list" where
  "snippetsOf (SnippetsPrint fs) = [fs]"
| "snippetsOf e = []"

definition printedSnippets :: "gen_state \<Rightarrow> test_file list list" where
  "printedSnippets s = concat (map snippetsOf (trace s))"

text \<open>The state of a pass once configuration, features and steps are loaded.\<close>

definition afterLoads :: "gen_env \<Rightarrow> gen_state \<Rightarrow> gen_state" where
  "afterLoads env s =
     snd (loadSteps env (snd (loadFeatures env (snd (loadCucumberConfig env s)))))"

text \<open>A generator as its constructor leaves it, in front of a disk.\<close>

definition newTestFilesGenerator :: "(string \<times> string list) list \<Rightarrow> gen_state" where
  "newTestFilesGenerator d = \<lparr> files = [], supportCodeLibrary = [], disk = d, trace = [] \<rparr>"


section \<open>The messages builder (src/reporter/cucumber/messagesBuilder/Builder.ts)\<close>

subsection \<open>Data\<close>

datatype test_status = Passed | Failed | TimedOut | Skipped | Interrupted

datatype full_status = RunPassed | RunFailed | RunTimedOut | RunInterrupted

text \<open>
  \<^verbatim>\<open>TimeMeasured\<close>: a start time and a duration. Both are JavaScript numbers of
  milliseconds, modelled as integers.
\<close>

record time_measured =
  startTime :: int
  duration :: int

record pw_result = time_measured +
  status :: test_status
  retry :: nat

text \<open>
  Playwright's test case as the builder reads it; \<open>projectTestDir\<close> is
  \<^verbatim>\<open>test.parent.project()?.testDir\<close>.
\<close>

record pw_test =
  test_id :: string
  title :: string
  expectedStatus :: test_status
  projectTestDir :: "string option"

text \<open>
  Playwright's full result; \<open>fullStartTime\<close> and \<open>fullDuration\<close> are \<open>None\<close> when the
  object has no such key (Playwright before 1.37).
\<close>

record full_result =
  fullStatus :: full_status
  fullStartTime :: "int option"
  fullDuration :: "int option"

text \<open>
  \<^verbatim>\<open>TestCaseRun\<close> is not among the sources; the builder reads its members \<^verbatim>\<open>test\<close>,
  \<^verbatim>\<open>result\<close> and \<^verbatim>\<open>projectInfo\<close> and writes \<^verbatim>\<open>testCase\<close>. The reference to the test
  case is the key of the test case in the builder's map.
\<close>

record test_case_run =
  test :: pw_test
  result :: pw_result
  projectInfo :: string
  testCase :: "string option"

text \<open>
  Modelled from the spec: \<^verbatim>\<open>TestCase\<close> (not among the sources) is the logical identity of
  one test across its attempts and owns the ordered list of its test case runs, one per
  attempt; \<^verbatim>\<open>addRun\<close> appends.
\<close>

record test_case =
  tc_id :: string
  gherkinDocs :: "string list"
  runs :: "test_case_run list"

definition newTestCase :: "string \<Rightarrow> string list \<Rightarrow> test_case" where
  "newTestCase testId docs = \<lparr> tc_id = testId, gherkinDocs = docs, runs = [] \<rparr>"

definition addRun :: "test_case_run \<Rightarrow> test_case \<Rightarrow> test_case" where
  "addRun run tc = tc\<lparr> runs := runs tc @ [run] \<rparr>"

text \<open>
  Modelled from the spec: \<^verbatim>\<open>AutofillMap\<close> (utils/AutofillMap.ts, not among the sources)
  creates an entry lazily on the first request for a key and never destroys one. It is a
  JavaScript \<^verbatim>\<open>Map\<close>, so it keeps its keys in insertion order: an association list in
  which \<open>AList.update\<close> replaces the value of a present key in place and appends an absent
  one.
\<close>

definition getOrCreate :: "('k \<times> 'v) list \<Rightarrow> 'k \<Rightarrow> 'v \<Rightarrow> 'v \<times> ('k \<times> 'v) list" where
  "getOrCreate m k created =
     (case map_of m k of
        Some item \<Rightarrow> (item, m)
      | None \<Rightarrow> (created, AList.update k created m))"

text \<open>
  Modelled from the spec: \<^verbatim>\<open>toCucumberTimestamp\<close> (timing.ts, not among the sources) turns
  epoch milliseconds into a timestamp in protocol-native units. The model keeps the
  milliseconds inside the timestamp, and one timestamp precedes another when its
  milliseconds are smaller.
\<close>

datatype cucumber_timestamp = Timestamp int

definition toCucumberTimestamp :: "int \<Rightarrow> cucumber_timestamp" where
  "toCucumberTimestamp time = Timestamp time"

fun precedes :: "cucumber_timestamp \<Rightarrow> cucumber_timestamp \<Rightarrow> bool" where
  "precedes (Timestamp a) (Timestamp b) = (a < b)"

text \<open>
  Modelled from the spec: \<^verbatim>\<open>calcMinMaxByArray\<close> (timing.ts, not among the sources) gives the
  earliest start time across the items; its duration reaches from there to the latest end.
  With no item it falls back on the current time \<open>now\<close>.
\<close>

definition getEndTime :: "'a time_measured_scheme \<Rightarrow> int" where
  "getEndTime item = startTime item + duration item"

definition calcMinMaxByArray :: "int \<Rightarrow> 'a time_measured_scheme list \<Rightarrow> time_measured" where
  "calcMinMaxByArray now items =
     (case items of
        [] \<Rightarrow> \<lparr> startTime = now, duration = 0 \<rparr>
      | item # rest \<Rightarrow>
          (let start = foldl min (startTime item) (map startTime rest);
               finish = foldl max (getEndTime item) (map getEndTime rest)
           in \<lparr> startTime = start, duration = finish - start \<rparr>))"

text \<open>
  The envelopes of the report, one constructor per kind. The kinds of
  \<^verbatim>\<open>TestCaseRunEnvelope\<close>, which a run attempt contributes, are those the specification
  lists between testCase and testRunFinished.
\<close>

datatype test_case_run_envelope =
    TestCaseStarted string
  | TestStepStarted string
  | TestStepFinished string
  | Attachment string
  | TestCaseFinished string

record test_run_started =
  timestamp :: cucumber_timestamp

record test_run_finished = test_run_started +
  success :: bool

datatype envelope =
    Meta string
  | Source string
  | GherkinDocument string
  | Pickle string
  | StepDefinition string
  | Hook string
  | TestRunStarted test_run_started
  | TestCase string
  | RunAttempt test_case_run_envelope
  | TestRunFinished test_run_finished

text \<open>The member \<^verbatim>\<open>report\<close>, its keys in the order of the object literal.\<close>

record report =
  report_meta :: "string option"
  report_source :: "string list"
  report_gherkinDocument :: "string list"
  report_pickle :: "string list"
  report_stepDefinition :: "string list"
  report_hook :: "string list"
  report_testRunStarted :: "test_run_started option"
  report_testCase :: "string list"
  report_testCaseRuns :: "test_case_run_envelope list"
  report_testRunFinished :: "test_run_finished option"

text \<open>
  The classes the builder delegates to (\<^verbatim>\<open>Meta\<close>, \<^verbatim>\<open>GherkinDocuments\<close>, \<^verbatim>\<open>Pickles\<close>,
  \<^verbatim>\<open>Hook\<close>, the message builders of \<^verbatim>\<open>TestCase\<close> and \<^verbatim>\<open>TestCaseRun\<close>) and
  \<^verbatim>\<open>hasBddConfig\<close> are not among the sources: they are parameters. \<open>collectHooks\<close> is
  what the constructor of \<^verbatim>\<open>TestCaseRun\<close> does to the hooks map it is handed.
\<close>

record collaborators =
  hasBddConfig :: "string option \<Rightarrow> bool"
  getProjectInfo :: "pw_test \<Rightarrow> string"
  collectHooks :: "pw_test \<Rightarrow> pw_result \<Rightarrow> (string \<times> string) list \<Rightarrow> (string \<times> string) list"
  loadDocuments :: "test_case_run list \<Rightarrow> (string \<times> string list) list"
  getDocumentsForProject :: "(string \<times> string list) list \<Rightarrow> string \<Rightarrow> string list"
  documentsBuildMessages :: "(string \<times> string list) list \<Rightarrow> string list \<times> string list"
  metaBuildMessage :: string
  picklesBuildMessages :: "(string \<times> test_case) list \<Rightarrow> string list"
  hookBuildMessage :: "string \<Rightarrow> string"
  testCaseBuildMessage :: "test_case \<Rightarrow> string"
  testCaseRunBuildMessages :: "test_case_run \<Rightarrow> test_case_run_envelope list"
  now :: int

record messages_builder =
  report :: report
  fullResult :: "full_result option"
  testCaseRuns :: "test_case_run list"
  testCases :: "(string \<times> test_case) list"
  hooks :: "(string \<times> string) list"
  gherkinDocuments :: "(string \<times> string list) list"
  fullResultTiming :: "time_measured option"
  buildMessagesPromise :: bool
  eventDataCollected :: "envelope list"

subsection \<open>Operations\<close>

definition newMessagesBuilder :: messages_builder where
  "newMessagesBuilder =
     \<lparr> report =
         \<lparr> report_meta = None, report_source = [], report_gherkinDocument = [],
           report_pickle = [], report_stepDefinition = [], report_hook = [],
           report_testRunStarted = None, report_testCase = [], report_testCaseRuns = [],
           report_testRunFinished = None \<rparr>,
       fullResult = None, testCaseRuns = [], testCases = [], hooks = [],
       gherkinDocuments = [], fullResultTiming = None, buildMessagesPromise = False,
       eventDataCollected = [] \<rparr>"

definition newTestCaseRun ::
  "collaborators \<Rightarrow> pw_test \<Rightarrow> pw_result \<Rightarrow> (string \<times> string) list
    \<Rightarrow> test_case_run \<times> (string \<times> string) list" where
  "newTestCaseRun c t r hs =
     (\<lparr> test = t, result = r, projectInfo = getProjectInfo c t, testCase = None \<rparr>,
      collectHooks c t r hs)"

definition onTestEnd :: "collaborators \<Rightarrow> pw_test \<Rightarrow> pw_result \<Rightarrow> messages_builder \<Rightarrow> messages_builder" where
  "onTestEnd c t r s =
     (if \<not> hasBddConfig c (projectTestDir t) then s
      else if expectedStatus t = Skipped then s
      else (case newTestCaseRun c t r (hooks s) of
              (testCaseRun, hs) \<Rightarrow>
                s\<lparr> hooks := hs, testCaseRuns := testCaseRuns s @ [testCaseRun] \<rparr>))"

definition onEnd :: "full_result \<Rightarrow> messages_builder \<Rightarrow> messages_builder" where
  "onEnd fr s = s\<lparr> fullResult := Some fr \<rparr>"

definition emitMessages :: "report \<Rightarrow> envelope list" where
  "emitMessages r =
     (case report_meta r of None \<Rightarrow> [] | Some m \<Rightarrow> [Meta m])
     @ map Source (report_source r)
     @ map GherkinDocument (report_gherkinDocument r)
     @ map Pickle (report_pickle r)
     @ map StepDefinition (report_stepDefinition r)
     @ map Hook (report_hook r)
     @ (case report_testRunStarted r of None \<Rightarrow> [] | Some m \<Rightarrow> [TestRunStarted m])
     @ map TestCase (report_testCase r)
     @ map RunAttempt (report_testCaseRuns r)
     @ (case report_testRunFinished r of None \<Rightarrow> [] | Some m \<Rightarrow> [TestRunFinished m])"

definition loadFeaturesOfRuns :: "collaborators \<Rightarrow> messages_builder \<Rightarrow> messages_builder" where
  "loadFeaturesOfRuns c s = s\<lparr> gherkinDocuments := loadDocuments c (testCaseRuns s) \<rparr>"

text \<open>
  One round of the \<^verbatim>\<open>forEach\<close> of \<^verbatim>\<open>createTestCases\<close>. The run object is shared by the
  builder's list and the test case's list, so its \<^verbatim>\<open>testCase\<close> member, assigned at the end
  of the round, is set in both.
\<close>

definition createTestCasesStep ::
  "collaborators \<Rightarrow> (string \<times> string list) list
    \<Rightarrow> (string \<times> test_case) list \<times> test_case_run list \<Rightarrow> test_case_run
    \<Rightarrow> (string \<times> test_case) list \<times> test_case_run list" where
  "createTestCasesStep c docs acc testCaseRun =
     (let testId = test_id (test testCaseRun);
          gherkinDocsForProject = getDocumentsForProject c docs (projectInfo testCaseRun);
          linked = testCaseRun\<lparr> testCase := Some testId \<rparr>
      in (case getOrCreate (fst acc) testId (newTestCase testId gherkinDocsForProject) of
            (tc, tcs) \<Rightarrow> (AList.update testId (addRun linked tc) tcs, snd acc @ [linked])))"

definition createTestCases :: "collaborators \<Rightarrow> messages_builder \<Rightarrow> messages_builder" where
  "createTestCases c s =
     (case foldl (createTestCasesStep c (gherkinDocuments s)) (testCases s, []) (testCaseRuns s) of
        (tcs, linkedRuns) \<Rightarrow> s\<lparr> testCases := tcs, testCaseRuns := linkedRuns \<rparr>)"

definition addMeta :: "collaborators \<Rightarrow> messages_builder \<Rightarrow> messages_builder" where
  "addMeta c s = s\<lparr> report := (report s)\<lparr> report_meta := Some (metaBuildMessage c) \<rparr> \<rparr>"

definition addSourcesAndDocuments :: "collaborators \<Rightarrow> messages_builder \<Rightarrow> messages_builder" where
  "addSourcesAndDocuments c s =
     (case documentsBuildMessages c (gherkinDocuments s) of
        (sources, docs) \<Rightarrow>
          s\<lparr> report := (report s)\<lparr> report_source := sources, report_gherkinDocument := docs \<rparr> \<rparr>)"

definition addPickles :: "collaborators \<Rightarrow> messages_builder \<Rightarrow> messages_builder" where
  "addPickles c s =
     s\<lparr> report := (report s)\<lparr> report_pickle := picklesBuildMessages c (testCases s) \<rparr> \<rparr>"

definition addHooks :: "collaborators \<Rightarrow> messages_builder \<Rightarrow> messages_builder" where
  "addHooks c s =
     s\<lparr> report := (report s)
          \<lparr> report_hook := report_hook (report s) @ map (hookBuildMessage c \<circ> snd) (hooks s) \<rparr> \<rparr>"

definition addTestCases :: "collaborators \<Rightarrow> messages_builder \<Rightarrow> messages_builder" where
  "addTestCases c s =
     s\<lparr> report := (report s)
          \<lparr> report_testCase :=
              report_testCase (report s) @ map (testCaseBuildMessage c \<circ> snd) (testCases s) \<rparr> \<rparr>"

definition addTestCaseRuns :: "collaborators \<Rightarrow> messages_builder \<Rightarrow> messages_builder" where
  "addTestCaseRuns c s =
     s\<lparr> report := (report s)
          \<lparr> report_testCaseRuns :=
              report_testCaseRuns (report s)
                @ concat (map (testCaseRunBuildMessages c) (testCaseRuns s)) \<rparr> \<rparr>"

text \<open>
  The functions from here on run inside \<^verbatim>\<open>doBuildMessages\<close>, after \<^verbatim>\<open>onEnd\<close> has stored
  the full result; they take it as the argument \<open>fr\<close>.
\<close>

definition getFullResultTiming ::
  "collaborators \<Rightarrow> full_result \<Rightarrow> messages_builder \<Rightarrow> time_measured \<times> messages_builder" where
  "getFullResultTiming c fr s =
     (case fullResultTiming s of
        Some timing \<Rightarrow> (timing, s)
      | None \<Rightarrow>
          (let timing =
                 (case (fullStartTime fr, fullDuration fr) of
                    (Some st, Some d) \<Rightarrow> \<lparr> startTime = st, duration = d \<rparr>
                  | _ \<Rightarrow> calcMinMaxByArray (now c) (map result (testCaseRuns s)))
           in (timing, s\<lparr> fullResultTiming := Some timing \<rparr>)))"

definition addTestRunStarted :: "collaborators \<Rightarrow> full_result \<Rightarrow> messages_builder \<Rightarrow> messages_builder" where
  "addTestRunStarted c fr s =
     (case getFullResultTiming c fr s of
        (timing, s') \<Rightarrow>
          s'\<lparr> report := (report s')
               \<lparr> report_testRunStarted :=
                   Some \<lparr> timestamp = toCucumberTimestamp (startTime timing) \<rparr> \<rparr> \<rparr>)"

definition addTestRunFinished :: "collaborators \<Rightarrow> full_result \<Rightarrow> messages_builder \<Rightarrow> messages_builder" where
  "addTestRunFinished c fr s =
     (case getFullResultTiming c fr s of
        (timing, s') \<Rightarrow>
          s'\<lparr> report := (report s')
               \<lparr> report_testRunFinished :=
                   Some \<lparr> timestamp = toCucumberTimestamp (startTime timing + duration timing),
                          success = (fullStatus fr = RunPassed) \<rparr> \<rparr> \<rparr>)"

definition buildEventDataCollector :: "messages_builder \<Rightarrow> messages_builder" where
  "buildEventDataCollector s =
     s\<lparr> eventDataCollected := eventDataCollected s @ emitMessages (report s) \<rparr>"

text \<open>
  \<^verbatim>\<open>doBuildMessages\<close> first awaits the promise that \<^verbatim>\<open>onEnd\<close> resolves: without a full
  result the build does not complete, which is the value \<open>None\<close>.
\<close>

definition doBuildMessages :: "collaborators \<Rightarrow> messages_builder \<Rightarrow> messages_builder option" where
  "doBuildMessages c s =
     (case fullResult s of
        None \<Rightarrow> None
      | Some fr \<Rightarrow>
          Some (buildEventDataCollector
                 (addTestRunFinished c fr
                 (addTestCaseRuns c
                 (addTestCases c
                 (addTestRunStarted c fr
                 (addHooks c
                 (addPickles c
                 (addSourcesAndDocuments c
                 (addMeta c
                 (createTestCases c
                 (loadFeaturesOfRuns c s))))))))))))"

definition buildMessages :: "collaborators \<Rightarrow> messages_builder \<Rightarrow> messages_builder option" where
  "buildMessages c s =
     (if buildMessagesPromise s then Some s
      else map_option (\<lambda>s'. s'\<lparr> buildMessagesPromise := True \<rparr>) (doBuildMessages c s))"

text \<open>
  A reporter session: the host reports the end of every test attempt, then the end of the
  run, and the messages are built.
\<close>

definition observe :: "collaborators \<Rightarrow> (pw_test \<times> pw_result) list \<Rightarrow> messages_builder" where
  "observe c events = foldl (\<lambda>s ev. onTestEnd c (fst ev) (snd ev) s) newMessagesBuilder events"

definition session :: "collaborators \<Rightarrow> (pw_test \<times> pw_result) list \<Rightarrow> full_result \<Rightarrow> messages_builder option" where
  "session c events fr = buildMessages c (onEnd fr (observe c events))"

text \<open>The events that \<^verbatim>\<open>onTestEnd\<close> records: BDD project, not expected to be skipped.\<close>

definition recorded :: "collaborators \<Rightarrow> pw_test \<times> pw_result \<Rightarrow> bool" where
  "recorded c ev = (hasBddConfig c (projectTestDir (fst ev)) \<and> expectedStatus (fst ev) \<noteq> Skipped)"

text \<open>The rank of an envelope kind in the ordering contract of the report.\<close>

fun kindRank :: "envelope \<Rightarrow> nat" where
  "kindRank (Meta m) = 0"
| "kindRank (Source m) = 1"
| "kindRank (GherkinDocument m) = 1"
| "kindRank (Pickle m) = 2"
| "kindRank (StepDefinition m) = 3"
| "kindRank (Hook m) = 3"
| "kindRank (TestRunStarted m) = 4"
| "kindRank (TestCase m) = 5"
| "kindRank (RunAttempt m) = 6"
| "kindRank (TestRunFinished m) = 7"

fun isTestRunStarted :: "envelope \<Rightarrow> bool" where
  "isTestRunStarted (TestRunStarted m) = True"
| "isTestRunStarted e = False"

fun isTestRunFinished :: "envelope \<Rightarrow> bool" where
  "isTestRunFinished (TestRunFinished m) = True"
| "isTestRunFinished e = False"


subsection \<open>What a session is expected to hold\<close>

text \<open>
  The run that \<^verbatim>\<open>onTestEnd\<close> creates for a recorded event, and the run once
  \<^verbatim>\<open>createTestCases\<close> has linked it to its test case.
\<close>

definition eventRun :: "collaborators \<Rightarrow> pw_test \<times> pw_result \<Rightarrow> test_case_run" where
  "eventRun c ev =
     \<lparr> test = fst ev, result = snd ev, projectInfo = getProjectInfo c (fst ev), testCase = None \<rparr>"

definition linkRun :: "test_case_run \<Rightarrow> test_case_run" where
  "linkRun r = r\<lparr> testCase := Some (test_id (test r)) \<rparr>"

text \<open>
  The grouping in the words of the specification: the test case of a test id exists when a
  run carries the id; it is created for the first such run, with the documents of that run's
  project, and owns the runs that carry the id, in their order.
\<close>

definition testCaseOf ::
  "collaborators \<Rightarrow> (string \<times> string list) list \<Rightarrow> test_case_run list \<Rightarrow> string
    \<Rightarrow> test_case option" where
  "testCaseOf c docs rs testId =
     (case filter (\<lambda>r. test_id (test r) = testId) rs of
        [] \<Rightarrow> None
      | first # rest \<Rightarrow>
          Some \<lparr> tc_id = testId,
                 gherkinDocs = getDocumentsForProject c docs (projectInfo first),
                 runs = map linkRun (first # rest) \<rparr>)"

text \<open>The timing that \<^verbatim>\<open>getFullResultTiming\<close> settles on, from the results of the runs.\<close>

definition timingOf :: "collaborators \<Rightarrow> full_result \<Rightarrow> pw_result list \<Rightarrow> time_measured" where
  "timingOf c fr results =
     (case (fullStartTime fr, fullDuration fr) of
        (Some st, Some d) \<Rightarrow> \<lparr> startTime = st, duration = d \<rparr>
      | _ \<Rightarrow> calcMinMaxByArray (now c) results)"

text \<open>The report of a session, as \<^verbatim>\<open>doBuildMessages\<close> fills it.\<close>

definition sessionReport ::
  "collaborators \<Rightarrow> (pw_test \<times> pw_result) list \<Rightarrow> full_result
    \<Rightarrow> (string \<times> test_case) list \<Rightarrow> (string \<times> string) list \<Rightarrow> report" where
  "sessionReport c evs fr tcs hs =
     \<lparr> report_meta = Some (metaBuildMessage c),
       report_source = fst (documentsBuildMessages c
          (loadDocuments c (map (eventRun c) (filter (recorded c) evs)))),
       report_gherkinDocument = snd (documentsBuildMessages c
          (loadDocuments c (map (eventRun c) (filter (recorded c) evs)))),
       report_pickle = picklesBuildMessages c tcs,
       report_stepDefinition = [],
       report_hook = map (hookBuildMessage c \<circ> snd) hs,
       report_testRunStarted =
         Some \<lparr> timestamp = toCucumberTimestamp
                   (startTime (timingOf c fr (map snd (filter (recorded c) evs)))) \<rparr>,
       report_testCase = map (testCaseBuildMessage c \<circ> snd) tcs,
       report_testCaseRuns = concat (map (testCaseRunBuildMessages c)
          (map (linkRun \<circ> eventRun c) (filter (recorded c) evs))),
       report_testRunFinished =
         Some \<lparr> timestamp = toCucumberTimestamp
                   (startTime (timingOf c fr (map snd (filter (recorded c) evs)))
                     + duration (timingOf c fr (map snd (filter (recorded c) evs)))),
                success = (fullStatus fr = RunPassed) \<rparr> \<rparr>"


section \<open>Example inputs\<close>

text \<open>
  A project at \<^verbatim>\<open>/proj\<close> with its features under \<^verbatim>\<open>/proj/features\<close>. The example
  assembler gives a file one test per pickle of its document and the undefined steps that the
  table \<open>undefs\<close> lists for the document.
\<close>

definition exampleConfig :: bdd_config where
  "exampleConfig =
     \<lparr> outputDir = ''/proj/.features-gen'', featuresRoot = ''/proj/features'',
       importTestFrom = None, tags = None, verbose = False \<rparr>"

definition exampleAssemble ::
  "(string \<times> string list) list \<Rightarrow> gherkin_document \<Rightarrow> string \<Rightarrow> nat \<times> string list \<times> string list" where
  "exampleAssemble undefs doc path =
     (length (pickles doc),
      (case map_of undefs (uri doc) of None \<Rightarrow> [] | Some steps \<Rightarrow> steps),
      [''// generated from '' @ uri doc])"

definition exampleEnv ::
  "gherkin_document list \<Rightarrow> parse_error list \<Rightarrow> (string \<times> string list) list \<Rightarrow> gen_env" where
  "exampleEnv docs errs undefs =
     \<lparr> config = exampleConfig, configDir = ''/proj'', cwd = ''/proj'', pathOps = posix ''/proj'',
       runConfiguration =
         \<lparr> paths = [''features''], requirePaths = [''steps/index.ts''], importPaths = [],
           tsNodeRegister = False \<rparr>,
       parseErrors = errs, documentsCount = length docs, documentsWithPickles = docs,
       stepDefinitions = [''I have {int} cukes''], decoratorSteps = [], hasCustomTest = False,
       assemble = exampleAssemble undefs, convertPathToPattern = (\<lambda>p. p),
       globMatch = (\<lambda>pattern p.
          startsWith p (takeWhile (\<lambda>ch. ch \<noteq> CHR ''*'') pattern) \<and> suffix ''.spec.js'' p) \<rparr>"

definition exampleDisk :: "(string \<times> string list) list" where
  "exampleDisk =
     [(''/proj/.features-gen/old.feature.spec.js'', [''// stale'']),
      (''/proj/notes.txt'', [''keep me''])]"

definition cukesFeature :: gherkin_document where
  "cukesFeature = \<lparr> uri = ''features/cukes.feature'', pickles = [''eat'', ''buy''] \<rparr>"

definition loginFeature :: gherkin_document where
  "loginFeature = \<lparr> uri = ''features/auth/login.feature'', pickles = [''sign in''] \<rparr>"

definition filteredFeature :: gherkin_document where
  "filteredFeature = \<lparr> uri = ''features/wip.feature'', pickles = [] \<rparr>"

definition draftsFeature :: gherkin_document where
  "draftsFeature = \<lparr> uri = ''features/..drafts/a.feature'', pickles = [''draft''] \<rparr>"

definition strayFeature :: gherkin_document where
  "strayFeature = \<lparr> uri = ''legacy/old.feature'', pickles = [''old''] \<rparr>"

definition brokenFeatureError :: parse_error where
  "brokenFeatureError =
     loaderParseError ''features/broken.feature'' 3 1
       ''expected: #EOF, #TableRow, #StepLine, #TagLine, #ScenarioLine, got Feature''"

definition otherFeatureError :: parse_error where
  "otherFeatureError =
     loaderParseError ''features/other.feature'' 12 5 ''inconsistent cell count within the table''"

definition undefinedStepEnv :: gen_env where
  "undefinedStepEnv =
     exampleEnv [cukesFeature, loginFeature] []
       [(''features/auth/login.feature'', [''Given an unknown step''])]"

definition droppedUndefinedEnv :: gen_env where
  "droppedUndefinedEnv =
     exampleEnv [cukesFeature, filteredFeature] []
       [(''features/wip.feature'', [''Given an unknown background step''])]"

definition filteredEnv :: gen_env where
  "filteredEnv = exampleEnv [cukesFeature, filteredFeature] [] []"

definition strayEnv :: gen_env where
  "strayEnv = exampleEnv [cukesFeature, strayFeature] [] []"

definition draftsEnv :: gen_env where
  "draftsEnv = exampleEnv [cukesFeature, draftsFeature] [] []"

definition brokenEnv :: "parse_error list \<Rightarrow> gen_env" where
  "brokenEnv errs = exampleEnv [cukesFeature] errs []"


subsection \<open>Reporter sessions\<close>

definition exampleCollaborators :: collaborators where
  "exampleCollaborators =
     \<lparr> hasBddConfig = (\<lambda>dir. dir = Some ''/proj/.features-gen''),
       getProjectInfo = (\<lambda>t. case projectTestDir t of None \<Rightarrow> [] | Some dir \<Rightarrow> dir),
       collectHooks = (\<lambda>t r hs. AList.update ''before-all'' ''Before'' hs),
       loadDocuments = (\<lambda>rs. [(''/proj/.features-gen'', [''features/cukes.feature''])]),
       getDocumentsForProject = (\<lambda>docs p. case map_of docs p of None \<Rightarrow> [] | Some ds \<Rightarrow> ds),
       documentsBuildMessages = (\<lambda>docs. (concat (map snd docs), concat (map snd docs))),
       metaBuildMessage = ''playwright-bdd'',
       picklesBuildMessages = (\<lambda>tcs. map fst tcs),
       hookBuildMessage = (\<lambda>h. h),
       testCaseBuildMessage = tc_id,
       testCaseRunBuildMessages =
         (\<lambda>r. [TestCaseStarted (test_id (test r)), TestCaseFinished (test_id (test r))]),
       now = 0 \<rparr>"

definition bddTest :: "string \<Rightarrow> pw_test" where
  "bddTest name =
     \<lparr> test_id = name, title = name, expectedStatus = Passed,
       projectTestDir = Some ''/proj/.features-gen'' \<rparr>"

definition skippedTest :: pw_test where
  "skippedTest = (bddTest ''s'')\<lparr> expectedStatus := Skipped \<rparr>"

definition plainTest :: pw_test where
  "plainTest = (bddTest ''p'')\<lparr> projectTestDir := Some ''/proj/tests'' \<rparr>"

definition attempt :: "int \<Rightarrow> int \<Rightarrow> test_status \<Rightarrow> nat \<Rightarrow> pw_result" where
  "attempt start dur st n = \<lparr> startTime = start, duration = dur, status = st, retry = n \<rparr>"

definition exampleEvents :: "(pw_test \<times> pw_result) list" where
  "exampleEvents =
     [(bddTest ''a'', attempt 1000 50 Failed 0),
      (bddTest ''b'', attempt 900 30 Passed 0),
      (skippedTest, attempt 950 0 Skipped 0),
      (plainTest, attempt 800 10 Passed 0),
      (bddTest ''a'', attempt 1100 40 Passed 1)]"

definition hostTimedResult :: full_result where
  "hostTimedResult = \<lparr> fullStatus = RunPassed, fullStartTime = Some 500, fullDuration = Some 1000 \<rparr>"

definition untimedResult :: full_result where
  "untimedResult = \<lparr> fullStatus = RunPassed, fullStartTime = None, fullDuration = None \<rparr>"


section \<open>Properties of the generator\<close>

subsection \<open>How a pass unfolds\<close>

lemma undefinedStepsCount_acc:
  "foldl (\<lambda>sum f. sum + length (undefinedSteps f)) n fs
     = n + sum_list (map (\<lambda>f. length (undefinedSteps f)) fs)"
  by (induction fs arbitrary: n) simp_all

lemma undefinedStepsCount_pos:
  "(0 < foldl (\<lambda>sum f. sum + length (undefinedSteps f)) 0 fs)
     = (\<exists>f \<in> set fs. undefinedSteps f \<noteq> [])"
  by (induction fs) (auto simp: undefinedStepsCount_acc)

text \<open>
  The pass as a decision list: parse errors end it in \<^verbatim>\<open>loadFeatures\<close>, a failed path
  derivation in \<^verbatim>\<open>buildFiles\<close>, an undefined step of a kept file in
  \<^verbatim>\<open>checkUndefinedSteps\<close>, a missing \<^verbatim>\<open>importTestFrom\<close> in \<^verbatim>\<open>checkImportTestFrom\<close>;
  only then \<^verbatim>\<open>clearOutputDir\<close> and \<^verbatim>\<open>saveFiles\<close> run.
\<close>

lemma generate_unfold:
  "generate env s =
     (if parseErrors env \<noteq> []
      then (Exited (ExitError [joinWith [CHR 0x0A] (map parseErrorLine (parseErrors env))]),
            emit (LogLoadingFeatures (joinWith '', '' (paths (runConfiguration env))))
              (warnForTsNodeRegister env s))
      else (case builtFiles env (documentsWithPickles env) of
              Inl e \<Rightarrow> (Exited e, afterLoads env s)
            | Inr fs \<Rightarrow>
                (if \<exists>f \<in> set (kept fs). undefinedSteps f \<noteq> []
                 then (Exited (ExitError []),
                       emit (SnippetsPrint (kept fs)) ((afterLoads env s)\<lparr> files := kept fs \<rparr>))
                 else (case checkImportTestFrom env ((afterLoads env s)\<lparr> files := kept fs \<rparr>) of
                         (Inl e, s') \<Rightarrow> (Exited e, s')
                       | (Inr u, s') \<Rightarrow>
                           (Completed, snd (saveFiles env (snd (clearOutputDir env s'))))))))"
  by (auto simp: generate_def withExitHandler_def andThen_def loadCucumberConfig_def
      loadFeatures_def handleParseErrors_def loadSteps_def buildFiles_def checkUndefinedSteps_def
      undefinedStepsCount_pos afterLoads_def kept_def clearOutputDir_def saveFiles_def Let_def
      split: sum.splits prod.splits)

subsection \<open>What each step leaves alone\<close>

lemmas observe_defs = mutations_def saved_def reportedTotals_def printedSnippets_def

lemma emit_frame:
  "disk (emit e s) = disk s" "files (emit e s) = files s"
  "mutations (emit e s) = mutations s @ filter mutatesFs [e]"
  "saved (emit e s) = saved s @ savedOf e"
  "reportedTotals (emit e s) = reportedTotals s @ totalOf e"
  "printedSnippets (emit e s) = printedSnippets s @ snippetsOf e"
  by (simp_all add: emit_def observe_defs)

lemma warn_frame:
  "disk (warnForTsNodeRegister env s) = disk s" "files (warnForTsNodeRegister env s) = files s"
  "mutations (warnForTsNodeRegister env s) = mutations s"
  "saved (warnForTsNodeRegister env s) = saved s"
  "reportedTotals (warnForTsNodeRegister env s) = reportedTotals s"
  "printedSnippets (warnForTsNodeRegister env s) = printedSnippets s"
  by (simp_all add: warnForTsNodeRegister_def emit_frame)

lemma afterLoads_frame:
  "disk (afterLoads env s) = disk s" "files (afterLoads env s) = files s"
  "mutations (afterLoads env s) = mutations s"
  "saved (afterLoads env s) = saved s"
  "reportedTotals (afterLoads env s) = reportedTotals s"
  "printedSnippets (afterLoads env s) = printedSnippets s"
  by (simp_all add: afterLoads_def loadSteps_def loadFeatures_def handleParseErrors_def
      loadCucumberConfig_def loadDecoratorSteps_def warnForTsNodeRegister_def emit_def
      observe_defs Let_def split: option.splits)

lemma files_update_frame:
  "disk (s\<lparr> files := fs \<rparr>) = disk s"
  "mutations (s\<lparr> files := fs \<rparr>) = mutations s"
  "saved (s\<lparr> files := fs \<rparr>) = saved s"
  "reportedTotals (s\<lparr> files := fs \<rparr>) = reportedTotals s"
  "printedSnippets (s\<lparr> files := fs \<rparr>) = printedSnippets s"
  by (simp_all add: observe_defs)

lemma rm_fold_frame:
  "files (foldl (\<lambda>st p. fsRm p st) s ps) = files s \<and>
   saved (foldl (\<lambda>st p. fsRm p st) s ps) = saved s \<and>
   reportedTotals (foldl (\<lambda>st p. fsRm p st) s ps) = reportedTotals s \<and>
   printedSnippets (foldl (\<lambda>st p. fsRm p st) s ps) = printedSnippets s"
  by (induction ps arbitrary: s) (simp_all add: fsRm_def emit_def observe_defs)

lemma clearOutputDir_frame:
  "files (snd (clearOutputDir env s)) = files s"
  "saved (snd (clearOutputDir env s)) = saved s"
  "reportedTotals (snd (clearOutputDir env s)) = reportedTotals s"
  "printedSnippets (snd (clearOutputDir env s)) = printedSnippets s"
  by (simp_all add: clearOutputDir_def Let_def rm_fold_frame emit_frame)

lemma save_fold_frame:
  "files (foldl (\<lambda>st f. emit (LogGenerated (g f)) (save f st)) s fs) = files s \<and>
   saved (foldl (\<lambda>st f. emit (LogGenerated (g f)) (save f st)) s fs) = saved s @ fs \<and>
   reportedTotals (foldl (\<lambda>st f. emit (LogGenerated (g f)) (save f st)) s fs) = reportedTotals s \<and>
   printedSnippets (foldl (\<lambda>st f. emit (LogGenerated (g f)) (save f st)) s fs) = printedSnippets s"
  by (induction fs arbitrary: s) (simp_all add: save_def emit_def observe_defs)

lemma saveFiles_effect:
  "files (snd (saveFiles env s)) = files s"
  "saved (snd (saveFiles env s)) = saved s @ files s"
  "reportedTotals (snd (saveFiles env s)) = reportedTotals s @ [length (files s)]"
  "printedSnippets (snd (saveFiles env s)) = printedSnippets s"
  by (simp_all add: saveFiles_def Let_def save_fold_frame emit_frame)

text \<open>Every exit of a pass comes before the first change of the disk.\<close>

lemma generate_exited_untouched:
  assumes "fst (generate env s) = Exited e"
  shows "disk (snd (generate env s)) = disk s \<and> mutations (snd (generate env s)) = mutations s
    \<and> saved (snd (generate env s)) = saved s"
  using assms
  by (auto simp: generate_unfold emit_frame warn_frame afterLoads_frame files_update_frame
      checkImportTestFrom_def split: sum.splits if_splits prod.splits)

lemma newTestFilesGenerator_observed:
  "files (newTestFilesGenerator d) = []" "disk (newTestFilesGenerator d) = d"
  "mutations (newTestFilesGenerator d) = []" "saved (newTestFilesGenerator d) = []"
  "reportedTotals (newTestFilesGenerator d) = []" "printedSnippets (newTestFilesGenerator d) = []"
  by (simp_all add: newTestFilesGenerator_def observe_defs)

subsection \<open>Undefined steps\<close>

text \<open>
  C1 (as amended). For every generation pass in which \<^verbatim>\<open>buildFiles\<close> completes and at least
  one test file that it keeps (a built file with a test count above zero) contains an
  undefined step, \<^verbatim>\<open>generate\<close> exits, and the disk and the record of file system changes
  are as before the pass: neither \<^verbatim>\<open>clearOutputDir\<close> nor \<^verbatim>\<open>saveFiles\<close> has run. When no
  parse error ended the pass earlier, the exit is the one of \<^verbatim>\<open>checkUndefinedSteps\<close>: it
  carries no message and comes after the snippets were printed once for all kept files.
\<close>

theorem undefined_step_in_kept_file_aborts:
  assumes "builtFiles env (documentsWithPickles env) = Inr fs"
    and "f \<in> set (kept fs)" and "undefinedSteps f \<noteq> []"
  shows "(\<exists>e. fst (generate env s) = Exited e)
    \<and> disk (snd (generate env s)) = disk s
    \<and> mutations (snd (generate env s)) = mutations s
    \<and> (parseErrors env = [] \<longrightarrow>
          fst (generate env s) = Exited (ExitError [])
        \<and> files (snd (generate env s)) = kept fs
        \<and> printedSnippets (snd (generate env s)) = printedSnippets s @ [kept fs])"
proof -
  from assms have ex: "\<exists>f \<in> set (kept fs). undefinedSteps f \<noteq> []" by blast
  have out: "\<exists>e. fst (generate env s) = Exited e"
    using assms(1) ex by (simp add: generate_unfold)
  then obtain e where e: "fst (generate env s) = Exited e" ..
  have main: "parseErrors env = [] \<longrightarrow>
          fst (generate env s) = Exited (ExitError [])
        \<and> files (snd (generate env s)) = kept fs
        \<and> printedSnippets (snd (generate env s)) = printedSnippets s @ [kept fs]"
    using assms(1) ex by (simp add: generate_unfold emit_frame files_update_frame afterLoads_frame)
  from out generate_exited_untouched[OF e] main show ?thesis by simp
qed

theorem undefined_step_in_kept_file_aborts_witness:
  "fst (generate undefinedStepEnv (newTestFilesGenerator exampleDisk)) = Exited (ExitError [])
   \<and> disk (snd (generate undefinedStepEnv (newTestFilesGenerator exampleDisk))) = exampleDisk
   \<and> mutations (snd (generate undefinedStepEnv (newTestFilesGenerator exampleDisk))) = []
   \<and> printedSnippets (snd (generate undefinedStepEnv (newTestFilesGenerator exampleDisk)))
       = [[newTestFileBuild undefinedStepEnv cukesFeature
             ''/proj/.features-gen/cukes.feature.spec.js'',
           newTestFileBuild undefinedStepEnv loginFeature
             ''/proj/.features-gen/auth/login.feature.spec.js'']]"
proof -
  let ?a = "newTestFileBuild undefinedStepEnv cukesFeature
              ''/proj/.features-gen/cukes.feature.spec.js''"
  let ?b = "newTestFileBuild undefinedStepEnv loginFeature
              ''/proj/.features-gen/auth/login.feature.spec.js''"
  have b: "builtFiles undefinedStepEnv (documentsWithPickles undefinedStepEnv) = Inr [?a, ?b]"
    by code_simp
  have k: "kept [?a, ?b] = [?a, ?b]" by code_simp
  have m: "?b \<in> set (kept [?a, ?b])" unfolding k by simp
  have u: "undefinedSteps ?b \<noteq> []" by code_simp
  have p: "parseErrors undefinedStepEnv = []" by code_simp
  from undefined_step_in_kept_file_aborts[OF b m u, of "newTestFilesGenerator exampleDisk"] p k
  show ?thesis by (simp add: newTestFilesGenerator_observed)
qed

text \<open>
  The claim as stated fails for a built file that \<^verbatim>\<open>buildFiles\<close> drops: the document
  \<^verbatim>\<open>features/wip.feature\<close> yields a file with an undefined step and a test count of zero,
  the filter removes it before \<^verbatim>\<open>checkUndefinedSteps\<close> looks, and the pass completes,
  clearing the stale file of the output directory on its way.
\<close>

theorem undefined_step_in_dropped_file_does_not_abort:
  "map_sum id (map (\<lambda>f. (testCount f, undefinedSteps f)))
       (builtFiles droppedUndefinedEnv (documentsWithPickles droppedUndefinedEnv))
     = Inr [(2, []), (0, [''Given an unknown background step''])]
   \<and> fst (generate droppedUndefinedEnv (newTestFilesGenerator exampleDisk)) = Completed
   \<and> mutations (snd (generate droppedUndefinedEnv (newTestFilesGenerator exampleDisk)))
       = [FsRm ''/proj/.features-gen/old.feature.spec.js'',
          FileSave (newTestFileBuild droppedUndefinedEnv cukesFeature
                      ''/proj/.features-gen/cukes.feature.spec.js'')]"
  by code_simp

subsection \<open>Files without tests\<close>

text \<open>
  C6. For every built test file whose test count is zero, the file is dropped from the
  generator's file list: it is not among the files of the generator after the pass, no save
  is recorded for it, and when the pass completes the saved files are exactly the kept ones
  and the reported total of generated files is their number, which leaves the dropped file
  out.
\<close>

theorem zero_test_file_dropped:
  assumes "builtFiles env (documentsWithPickles env) = Inr fs"
    and "f \<in> set fs" and "testCount f = 0"
  shows "f \<notin> set (files (snd (generate env (newTestFilesGenerator d))))
    \<and> f \<notin> set (saved (snd (generate env (newTestFilesGenerator d))))
    \<and> (fst (generate env (newTestFilesGenerator d)) = Completed \<longrightarrow>
          files (snd (generate env (newTestFilesGenerator d))) = kept fs
        \<and> saved (snd (generate env (newTestFilesGenerator d))) = kept fs
        \<and> reportedTotals (snd (generate env (newTestFilesGenerator d))) = [length (kept fs)])
    \<and> length (kept fs) < length fs"
proof -
  have nk: "f \<notin> set (kept fs)" using assms(3) by (simp add: kept_def)
  have lt: "length (kept fs) < length fs"
    unfolding kept_def using assms(2,3) by (intro length_filter_less[of f]) auto
  show ?thesis
    using assms(1) nk lt
    by (auto simp: generate_unfold emit_frame warn_frame afterLoads_frame files_update_frame
        checkImportTestFrom_def saveFiles_effect clearOutputDir_frame
        newTestFilesGenerator_observed split: sum.splits if_splits prod.splits)
qed

theorem zero_test_file_dropped_witness:
  "fst (generate filteredEnv (newTestFilesGenerator exampleDisk)) = Completed
   \<and> saved (snd (generate filteredEnv (newTestFilesGenerator exampleDisk)))
       = [newTestFileBuild filteredEnv cukesFeature ''/proj/.features-gen/cukes.feature.spec.js'']
   \<and> reportedTotals (snd (generate filteredEnv (newTestFilesGenerator exampleDisk))) = [1]
   \<and> newTestFileBuild filteredEnv filteredFeature ''/proj/.features-gen/wip.feature.spec.js''
       \<notin> set (files (snd (generate filteredEnv (newTestFilesGenerator exampleDisk))))"
proof -
  let ?a = "newTestFileBuild filteredEnv cukesFeature ''/proj/.features-gen/cukes.feature.spec.js''"
  let ?w = "newTestFileBuild filteredEnv filteredFeature ''/proj/.features-gen/wip.feature.spec.js''"
  have b: "builtFiles filteredEnv (documentsWithPickles filteredEnv) = Inr [?a, ?w]"
    by code_simp
  have m: "?w \<in> set [?a, ?w]" by simp
  have z: "testCount ?w = 0" by code_simp
  have k: "kept [?a, ?w] = [?a]" by code_simp
  have c: "fst (generate filteredEnv (newTestFilesGenerator exampleDisk)) = Completed"
    by code_simp
  note dropped = zero_test_file_dropped[OF b m z, of exampleDisk]
  from dropped
  have n: "?w \<notin> set (files (snd (generate filteredEnv (newTestFilesGenerator exampleDisk))))"
    by (rule conjunct1)
  from dropped c
  have r: "saved (snd (generate filteredEnv (newTestFilesGenerator exampleDisk))) = kept [?a, ?w]
    \<and> reportedTotals (snd (generate filteredEnv (newTestFilesGenerator exampleDisk)))
        = [length (kept [?a, ?w])]"
    by blast
  from n r c k show ?thesis by simp
qed

subsection \<open>Path derivation\<close>

lemma getSpecPathByFeaturePath_outside:
  "startsWith (relOutputPath env p) ''..'' \<Longrightarrow>
   getSpecPathByFeaturePath env p =
     Inl (ExitError
       [''All feature files should be located underneath featuresRoot.'',
        ''Please change featuresRoot or paths in configuration.'' @ [CHR 0x0A],
        ''featureFile: '' @ absFeaturePath env p @ [CHR 0x0A],
        ''featuresRoot: '' @ featuresRoot (config env) @ [CHR 0x0A]])"
  by (simp add: getSpecPathByFeaturePath_def relOutputPath_def absFeaturePath_def Let_def)

text \<open>
  Whenever the derivation does not exit, the generated path is the path relative to
  \<^verbatim>\<open>featuresRoot\<close>, resolved against \<^verbatim>\<open>outputDir\<close>, with \<^verbatim>\<open>.spec.js\<close> appended.
\<close>

lemma getSpecPathByFeaturePath_inside:
  "\<not> startsWith (relOutputPath env p) ''..'' \<Longrightarrow>
   getSpecPathByFeaturePath env p =
     Inr (resolve (pathOps env) (outputDir (config env)) (relOutputPath env p) @ ''.spec.js'')"
  by (simp add: getSpecPathByFeaturePath_def relOutputPath_def absFeaturePath_def Let_def)

lemma builtFiles_outside:
  "d \<in> set docs \<Longrightarrow> startsWith (relOutputPath env (uri d)) ''..'' \<Longrightarrow>
   \<exists>e. builtFiles env docs = Inl e"
proof (induction docs)
  case Nil
  then show ?case by simp
next
  case (Cons doc docs)
  show ?case
  proof (cases "d = doc")
    case True
    with Cons.prems show ?thesis by (simp add: getSpecPathByFeaturePath_outside)
  next
    case False
    with Cons obtain e where "builtFiles env docs = Inl e" by auto
    then show ?thesis by (simp split: sum.splits)
  qed
qed

lemma builtFiles_exit_source:
  "builtFiles env docs = Inl e \<Longrightarrow> \<exists>d \<in> set docs. getSpecPathByFeaturePath env (uri d) = Inl e"
  by (induction docs) (auto split: sum.splits)

text \<open>
  C5. For every feature file of the pass whose path relative to \<^verbatim>\<open>featuresRoot\<close> starts with
  \<^verbatim>\<open>..\<close>, the path derivation exits with messages that contain the absolute path of the
  feature file and \<^verbatim>\<open>featuresRoot\<close>; the pass exits, with the disk and the record of file
  system changes and saves as before; and unless parse errors ended the pass earlier, the
  exit is one raised by the path derivation of a document of the pass.
\<close>

theorem feature_outside_featuresRoot_is_fatal:
  assumes "d \<in> set (documentsWithPickles env)"
    and "startsWith (relOutputPath env (uri d)) ''..''"
  shows "(\<exists>msgs. getSpecPathByFeaturePath env (uri d) = Inl (ExitError msgs)
            \<and> (\<exists>m \<in> set msgs. sublist (absFeaturePath env (uri d)) m)
            \<and> (\<exists>m \<in> set msgs. sublist (featuresRoot (config env)) m))
    \<and> (\<exists>e. fst (generate env s) = Exited e
            \<and> (parseErrors env = [] \<longrightarrow>
                 (\<exists>d' \<in> set (documentsWithPickles env).
                     getSpecPathByFeaturePath env (uri d') = Inl e)))
    \<and> disk (snd (generate env s)) = disk s
    \<and> mutations (snd (generate env s)) = mutations s
    \<and> saved (snd (generate env s)) = saved s"
proof -
  let ?abs = "absFeaturePath env (uri d)"
  let ?root = "featuresRoot (config env)"
  let ?msgs = "[''All feature files should be located underneath featuresRoot.'',
        ''Please change featuresRoot or paths in configuration.'' @ [CHR 0x0A],
        ''featureFile: '' @ ?abs @ [CHR 0x0A],
        ''featuresRoot: '' @ ?root @ [CHR 0x0A]]"
  have exits: "getSpecPathByFeaturePath env (uri d) = Inl (ExitError ?msgs)"
    by (rule getSpecPathByFeaturePath_outside[OF assms(2)])
  have file_named: "\<exists>m \<in> set ?msgs. sublist ?abs m"
  proof (rule bexI)
    show "sublist ?abs (''featureFile: '' @ ?abs @ [CHR 0x0A])" by (rule sublist_appendI)
    show "''featureFile: '' @ ?abs @ [CHR 0x0A] \<in> set ?msgs" by simp
  qed
  have root_named: "\<exists>m \<in> set ?msgs. sublist ?root m"
  proof (rule bexI)
    show "sublist ?root (''featuresRoot: '' @ ?root @ [CHR 0x0A])" by (rule sublist_appendI)
    show "''featuresRoot: '' @ ?root @ [CHR 0x0A] \<in> set ?msgs" by simp
  qed
  from exits file_named root_named
  have named: "\<exists>msgs. getSpecPathByFeaturePath env (uri d) = Inl (ExitError msgs)
            \<and> (\<exists>m \<in> set msgs. sublist (absFeaturePath env (uri d)) m)
            \<and> (\<exists>m \<in> set msgs. sublist (featuresRoot (config env)) m)"
    by blast
  from builtFiles_outside[OF assms] obtain e0
    where e0: "builtFiles env (documentsWithPickles env) = Inl e0" ..
  from builtFiles_exit_source[OF e0] have src:
    "\<exists>d' \<in> set (documentsWithPickles env). getSpecPathByFeaturePath env (uri d') = Inl e0" .
  have ex: "\<exists>e. fst (generate env s) = Exited e
            \<and> (parseErrors env = [] \<longrightarrow>
                 (\<exists>d' \<in> set (documentsWithPickles env).
                     getSpecPathByFeaturePath env (uri d') = Inl e))"
    using e0 src by (simp add: generate_unfold)
  then obtain e where "fst (generate env s) = Exited e" by blast
  from generate_exited_untouched[OF this] named ex show ?thesis by simp
qed

theorem feature_outside_featuresRoot_is_fatal_witness:
  "startsWith (relOutputPath strayEnv (uri strayFeature)) ''..''
   \<and> generate strayEnv (newTestFilesGenerator exampleDisk)
       = (Exited (ExitError
            [''All feature files should be located underneath featuresRoot.'',
             ''Please change featuresRoot or paths in configuration.'' @ [CHR 0x0A],
             ''featureFile: /proj/legacy/old.feature'' @ [CHR 0x0A],
             ''featuresRoot: /proj/features'' @ [CHR 0x0A]]),
          afterLoads strayEnv (newTestFilesGenerator exampleDisk))
   \<and> disk (snd (generate strayEnv (newTestFilesGenerator exampleDisk))) = exampleDisk
   \<and> saved (snd (generate strayEnv (newTestFilesGenerator exampleDisk))) = []"
proof -
  have m: "strayFeature \<in> set (documentsWithPickles strayEnv)" by code_simp
  have o: "startsWith (relOutputPath strayEnv (uri strayFeature)) ''..''" by code_simp
  have g: "generate strayEnv (newTestFilesGenerator exampleDisk)
       = (Exited (ExitError
            [''All feature files should be located underneath featuresRoot.'',
             ''Please change featuresRoot or paths in configuration.'' @ [CHR 0x0A],
             ''featureFile: /proj/legacy/old.feature'' @ [CHR 0x0A],
             ''featuresRoot: /proj/features'' @ [CHR 0x0A]]),
          afterLoads strayEnv (newTestFilesGenerator exampleDisk))"
    by code_simp
  from feature_outside_featuresRoot_is_fatal[OF m o, of "newTestFilesGenerator exampleDisk"] o g
  show ?thesis by (simp add: newTestFilesGenerator_observed)
qed

text \<open>
  C4. The feature file \<^verbatim>\<open>/proj/features/..drafts/a.feature\<close> lies underneath the features
  root \<^verbatim>\<open>/proj/features\<close>, in a directory whose name begins with two dots. Its path
  relative to the root is \<^verbatim>\<open>..drafts/a.feature\<close>, which \<^verbatim>\<open>startsWith('..')\<close> takes for a
  path that leaves the root: the derivation exits instead of giving
  \<^verbatim>\<open>/proj/.features-gen/..drafts/a.feature.spec.js\<close>.
\<close>

theorem feature_in_dotdot_named_directory_rejected:
  "underneath ''/proj'' (featuresRoot (config draftsEnv))
       (absFeaturePath draftsEnv ''features/..drafts/a.feature'')
   \<and> relOutputPath draftsEnv ''features/..drafts/a.feature'' = ''..drafts/a.feature''
   \<and> resolve (pathOps draftsEnv) (outputDir (config draftsEnv)) ''..drafts/a.feature''
         @ ''.spec.js''
       = ''/proj/.features-gen/..drafts/a.feature.spec.js''
   \<and> getSpecPathByFeaturePath draftsEnv ''features/..drafts/a.feature''
       = Inl (ExitError
           [''All feature files should be located underneath featuresRoot.'',
            ''Please change featuresRoot or paths in configuration.'' @ [CHR 0x0A],
            ''featureFile: /proj/features/..drafts/a.feature'' @ [CHR 0x0A],
            ''featuresRoot: /proj/features'' @ [CHR 0x0A]])"
  by code_simp

subsection \<open>Parse errors\<close>

lemma sublist_joinWith: "x \<in> set xs \<Longrightarrow> sublist x (joinWith sep xs)"
proof (induction sep xs rule: joinWith.induct)
  case (1 sep)
  then show ?case by simp
next
  case (2 sep y)
  then show ?case by auto
next
  case (3 sep y z zs)
  show ?case
  proof (cases "x = y")
    case True
    then show ?thesis by simp
  next
    case False
    with "3.prems" have "x \<in> set (z # zs)" by simp
    from "3.IH"[OF this] obtain ps ss where "joinWith sep (z # zs) = ps @ x @ ss"
      by (auto simp: sublist_def)
    then have "joinWith sep (y # z # zs) = (y @ sep @ ps) @ x @ ss" by simp
    then show ?thesis unfolding sublist_def by blast
  qed
qed

lemma sublist_of_line:
  assumes "sublist x line" and "line \<in> set ls"
  shows "sublist x (joinWith sep ls)"
proof -
  from sublist_joinWith[OF assms(2), of sep] obtain ps ss
    where j: "joinWith sep ls = ps @ line @ ss"
    by (auto simp: sublist_def)
  from assms(1) obtain qs ts where "line = qs @ x @ ts" by (auto simp: sublist_def)
  with j have "joinWith sep ls = (ps @ qs) @ x @ (ts @ ss)" by simp
  then show ?thesis unfolding sublist_def by blast
qed

lemma parseErrorLine_names:
  "sublist (sr_uri (source pe)) (parseErrorLine pe)" "sublist (message pe) (parseErrorLine pe)"
proof -
  have "parseErrorLine pe
      = (''Parse error in '' @ [CHR 0x22]) @ sr_uri (source pe) @ ([CHR 0x22] @ '' '' @ message pe)"
    by (simp add: parseErrorLine_def)
  then show "sublist (sr_uri (source pe)) (parseErrorLine pe)" unfolding sublist_def by blast
  have "parseErrorLine pe
      = (''Parse error in '' @ [CHR 0x22] @ sr_uri (source pe) @ [CHR 0x22] @ '' '') @ message pe @ []"
    by (simp add: parseErrorLine_def)
  then show "sublist (message pe) (parseErrorLine pe)" unfolding sublist_def by blast
qed

lemma parseErrorLine_location:
  assumes "asLoaded pe"
  shows "sublist (locationOf pe) (parseErrorLine pe)"
proof -
  from assms obtain rest where "message pe = locationOf pe @ rest"
    by (auto simp: asLoaded_def startsWith_def prefix_def)
  then have "parseErrorLine pe
      = (''Parse error in '' @ [CHR 0x22] @ sr_uri (source pe) @ [CHR 0x22] @ '' '')
          @ locationOf pe @ rest"
    by (simp add: parseErrorLine_def)
  then show ?thesis unfolding sublist_def by blast
qed

text \<open>
  C9. If the features loader holds a non-empty list of parse errors, the pass exits in
  \<^verbatim>\<open>loadFeatures\<close>, before \<^verbatim>\<open>buildFiles\<close>: the generator's files, the disk and the record
  of file system changes are as before. The exit carries one message, the lines of all parse
  errors joined by newlines, and this message contains the source URI and the message text of
  every parse error, and the location of every parse error that has the form in which the
  loader hands errors over (the generator copies the message text, which begins with the
  location).
\<close>

theorem parse_errors_abort_generation:
  assumes "parseErrors env \<noteq> []"
  shows "fst (generate env s) =
           Exited (ExitError [joinWith [CHR 0x0A] (map parseErrorLine (parseErrors env))])
    \<and> files (snd (generate env s)) = files s
    \<and> disk (snd (generate env s)) = disk s
    \<and> mutations (snd (generate env s)) = mutations s
    \<and> (\<forall>pe \<in> set (parseErrors env).
          sublist (sr_uri (source pe)) (joinWith [CHR 0x0A] (map parseErrorLine (parseErrors env)))
        \<and> sublist (message pe) (joinWith [CHR 0x0A] (map parseErrorLine (parseErrors env)))
        \<and> (asLoaded pe \<longrightarrow>
             sublist (locationOf pe)
               (joinWith [CHR 0x0A] (map parseErrorLine (parseErrors env)))))"
proof -
  have g: "generate env s =
           (Exited (ExitError [joinWith [CHR 0x0A] (map parseErrorLine (parseErrors env))]),
            emit (LogLoadingFeatures (joinWith '', '' (paths (runConfiguration env))))
              (warnForTsNodeRegister env s))"
    using assms by (simp add: generate_unfold)
  have st: "files (snd (generate env s)) = files s \<and> disk (snd (generate env s)) = disk s
    \<and> mutations (snd (generate env s)) = mutations s"
    unfolding g by (simp add: emit_frame warn_frame)
  have names: "\<forall>pe \<in> set (parseErrors env).
          sublist (sr_uri (source pe)) (joinWith [CHR 0x0A] (map parseErrorLine (parseErrors env)))
        \<and> sublist (message pe) (joinWith [CHR 0x0A] (map parseErrorLine (parseErrors env)))
        \<and> (asLoaded pe \<longrightarrow>
             sublist (locationOf pe)
               (joinWith [CHR 0x0A] (map parseErrorLine (parseErrors env))))"
  proof
    fix pe assume "pe \<in> set (parseErrors env)"
    then have line: "parseErrorLine pe \<in> set (map parseErrorLine (parseErrors env))" by simp
    have u: "sublist (sr_uri (source pe))
        (joinWith [CHR 0x0A] (map parseErrorLine (parseErrors env)))"
      by (rule sublist_of_line[OF parseErrorLine_names(1) line])
    have m: "sublist (message pe)
        (joinWith [CHR 0x0A] (map parseErrorLine (parseErrors env)))"
      by (rule sublist_of_line[OF parseErrorLine_names(2) line])
    have l: "asLoaded pe \<longrightarrow> sublist (locationOf pe)
        (joinWith [CHR 0x0A] (map parseErrorLine (parseErrors env)))"
    proof
      assume "asLoaded pe"
      from sublist_of_line[OF parseErrorLine_location[OF this] line]
      show "sublist (locationOf pe)
        (joinWith [CHR 0x0A] (map parseErrorLine (parseErrors env)))" .
    qed
    from u m l show
      "sublist (sr_uri (source pe)) (joinWith [CHR 0x0A] (map parseErrorLine (parseErrors env)))
        \<and> sublist (message pe) (joinWith [CHR 0x0A] (map parseErrorLine (parseErrors env)))
        \<and> (asLoaded pe \<longrightarrow>
             sublist (locationOf pe)
               (joinWith [CHR 0x0A] (map parseErrorLine (parseErrors env))))"
      by blast
  qed
  have out: "fst (generate env s) =
           Exited (ExitError [joinWith [CHR 0x0A] (map parseErrorLine (parseErrors env))])"
    unfolding g by (rule fst_conv)
  from out st names show ?thesis by blast
qed

theorem parse_errors_abort_generation_witness:
  "asLoaded brokenFeatureError \<and> asLoaded otherFeatureError
   \<and> fst (generate (brokenEnv [brokenFeatureError, otherFeatureError])
          (newTestFilesGenerator exampleDisk))
     = Exited (ExitError
         [''Parse error in '' @ [CHR 0x22] @ ''features/broken.feature'' @ [CHR 0x22]
            @ '' (3:1): expected: #EOF, #TableRow, #StepLine, #TagLine, #ScenarioLine, got Feature''
            @ [CHR 0x0A]
            @ ''Parse error in '' @ [CHR 0x22] @ ''features/other.feature'' @ [CHR 0x22]
            @ '' (12:5): inconsistent cell count within the table''])
   \<and> files (snd (generate (brokenEnv [brokenFeatureError, otherFeatureError])
                    (newTestFilesGenerator exampleDisk))) = []
   \<and> disk (snd (generate (brokenEnv [brokenFeatureError, otherFeatureError])
                   (newTestFilesGenerator exampleDisk))) = exampleDisk
   \<and> sublist ''(3:1)''
        (joinWith [CHR 0x0A]
           (map parseErrorLine (parseErrors (brokenEnv [brokenFeatureError, otherFeatureError]))))
   \<and> sublist ''(12:5)''
        (joinWith [CHR 0x0A]
           (map parseErrorLine (parseErrors (brokenEnv [brokenFeatureError, otherFeatureError]))))"
proof -
  let ?env = "brokenEnv [brokenFeatureError, otherFeatureError]"
  let ?msg = "joinWith [CHR 0x0A] (map parseErrorLine (parseErrors ?env))"
  have ne: "parseErrors ?env \<noteq> []" by code_simp
  have la: "asLoaded brokenFeatureError" by code_simp
  have lb: "asLoaded otherFeatureError" by code_simp
  have ma: "brokenFeatureError \<in> set (parseErrors ?env)" by code_simp
  have mb: "otherFeatureError \<in> set (parseErrors ?env)" by code_simp
  have ta: "locationOf brokenFeatureError = ''(3:1)''" by code_simp
  have tb: "locationOf otherFeatureError = ''(12:5)''" by code_simp
  have msg: "?msg
     = ''Parse error in '' @ [CHR 0x22] @ ''features/broken.feature'' @ [CHR 0x22]
            @ '' (3:1): expected: #EOF, #TableRow, #StepLine, #TagLine, #ScenarioLine, got Feature''
            @ [CHR 0x0A]
            @ ''Parse error in '' @ [CHR 0x22] @ ''features/other.feature'' @ [CHR 0x22]
            @ '' (12:5): inconsistent cell count within the table''"
    by code_simp
  note aborted = parse_errors_abort_generation[OF ne, of "newTestFilesGenerator exampleDisk"]
  from aborted have out: "fst (generate ?env (newTestFilesGenerator exampleDisk))
          = Exited (ExitError [?msg])"
    by (rule conjunct1)
  from aborted have f: "files (snd (generate ?env (newTestFilesGenerator exampleDisk)))
          = files (newTestFilesGenerator exampleDisk)"
    by blast
  from aborted have d: "disk (snd (generate ?env (newTestFilesGenerator exampleDisk)))
          = disk (newTestFilesGenerator exampleDisk)"
    by blast
  from aborted have named: "\<forall>pe \<in> set (parseErrors ?env).
      asLoaded pe \<longrightarrow> sublist (locationOf pe) ?msg"
    by blast
  from named ma la have a: "sublist (locationOf brokenFeatureError) ?msg" by blast
  from named mb lb have b: "sublist (locationOf otherFeatureError) ?msg" by blast
  show ?thesis
  proof (intro conjI)
    show "asLoaded brokenFeatureError" by (rule la)
    show "asLoaded otherFeatureError" by (rule lb)
    show "fst (generate ?env (newTestFilesGenerator exampleDisk))
     = Exited (ExitError
         [''Parse error in '' @ [CHR 0x22] @ ''features/broken.feature'' @ [CHR 0x22]
            @ '' (3:1): expected: #EOF, #TableRow, #StepLine, #TagLine, #ScenarioLine, got Feature''
            @ [CHR 0x0A]
            @ ''Parse error in '' @ [CHR 0x22] @ ''features/other.feature'' @ [CHR 0x22]
            @ '' (12:5): inconsistent cell count within the table''])"
      by (rule out[unfolded msg])
    show "files (snd (generate ?env (newTestFilesGenerator exampleDisk))) = []"
      using f by (simp only: newTestFilesGenerator_observed)
    show "disk (snd (generate ?env (newTestFilesGenerator exampleDisk))) = exampleDisk"
      using d by (simp only: newTestFilesGenerator_observed)
    show "sublist ''(3:1)'' ?msg" using a unfolding ta .
    show "sublist ''(12:5)'' ?msg" using b unfolding tb .
  qed
qed


section \<open>Properties of the messages builder\<close>

subsection \<open>Observing test ends\<close>

lemma onTestEnd_recorded:
  "recorded c ev \<Longrightarrow>
   testCaseRuns (onTestEnd c (fst ev) (snd ev) s) = testCaseRuns s @ [eventRun c ev]"
  by (simp add: onTestEnd_def recorded_def newTestCaseRun_def eventRun_def)

lemma onTestEnd_not_recorded: "\<not> recorded c ev \<Longrightarrow> onTestEnd c (fst ev) (snd ev) s = s"
  by (auto simp add: onTestEnd_def recorded_def)

lemma onTestEnd_frame:
  "report (onTestEnd c t r s) = report s \<and> fullResult (onTestEnd c t r s) = fullResult s
   \<and> testCases (onTestEnd c t r s) = testCases s
   \<and> gherkinDocuments (onTestEnd c t r s) = gherkinDocuments s
   \<and> fullResultTiming (onTestEnd c t r s) = fullResultTiming s
   \<and> buildMessagesPromise (onTestEnd c t r s) = buildMessagesPromise s
   \<and> eventDataCollected (onTestEnd c t r s) = eventDataCollected s"
  by (simp add: onTestEnd_def newTestCaseRun_def)

lemma observe_snoc: "observe c (evs @ [ev]) = onTestEnd c (fst ev) (snd ev) (observe c evs)"
  by (simp add: observe_def)

lemma observe_runs: "testCaseRuns (observe c evs) = map (eventRun c) (filter (recorded c) evs)"
proof (induction evs rule: rev_induct)
  case Nil
  show ?case by (simp add: observe_def newMessagesBuilder_def)
next
  case (snoc ev evs)
  show ?case
  proof (cases "recorded c ev")
    case True
    then show ?thesis using snoc by (simp add: observe_snoc onTestEnd_recorded)
  next
    case False
    then show ?thesis using snoc by (simp add: observe_snoc onTestEnd_not_recorded)
  qed
qed

lemma observe_frame:
  "report (observe c evs) = report newMessagesBuilder \<and> fullResult (observe c evs) = None
   \<and> testCases (observe c evs) = []
   \<and> fullResultTiming (observe c evs) = None
   \<and> buildMessagesPromise (observe c evs) = False
   \<and> eventDataCollected (observe c evs) = []"
proof (induction evs rule: rev_induct)
  case Nil
  show ?case by (simp add: observe_def newMessagesBuilder_def)
next
  case (snoc ev evs)
  then show ?case by (simp add: observe_snoc onTestEnd_frame)
qed

lemma observe_skip:
  assumes "\<And>s. onTestEnd c t r s = s"
  shows "observe c (before @ [(t, r)] @ after) = observe c (before @ after)"
  by (simp add: observe_def assms)

subsection \<open>Grouping runs into test cases\<close>

lemma createTestCasesStep_eq:
  "createTestCasesStep c docs (tcs0, linked0) r =
     (AList.update (test_id (test r))
        (addRun (linkRun r)
           (case map_of tcs0 (test_id (test r)) of
              Some tc \<Rightarrow> tc
            | None \<Rightarrow> newTestCase (test_id (test r)) (getDocumentsForProject c docs (projectInfo r))))
        tcs0,
      linked0 @ [linkRun r])"
  by (simp add: createTestCasesStep_def getOrCreate_def linkRun_def Let_def split: option.splits)

lemma testCaseOf_snoc:
  "testCaseOf c docs (rs @ [r]) t =
     (if test_id (test r) = t
      then Some (addRun (linkRun r)
             (case testCaseOf c docs rs t of
                Some tc \<Rightarrow> tc
              | None \<Rightarrow> newTestCase t (getDocumentsForProject c docs (projectInfo r))))
      else testCaseOf c docs rs t)"
  by (simp add: testCaseOf_def addRun_def newTestCase_def split: list.splits)

lemma createTestCases_foldl:
  "foldl (createTestCasesStep c docs) ([], []) rs = (tcs, linked)
     \<Longrightarrow> linked = map linkRun rs \<and> distinct (map fst tcs)
       \<and> (\<forall>t. map_of tcs t = testCaseOf c docs rs t)"
proof (induction rs arbitrary: tcs linked rule: rev_induct)
  case Nil
  then show ?case by (auto simp: testCaseOf_def)
next
  case (snoc r rs)
  obtain tcs0 linked0 where f: "foldl (createTestCasesStep c docs) ([], []) rs = (tcs0, linked0)"
    by (cases "foldl (createTestCasesStep c docs) ([], []) rs")
  from snoc.IH[OF f] have l0: "linked0 = map linkRun rs" and d0: "distinct (map fst tcs0)"
    and m0: "\<And>t. map_of tcs0 t = testCaseOf c docs rs t" by auto
  from snoc.prems f have step: "createTestCasesStep c docs (tcs0, linked0) r = (tcs, linked)" by simp
  from step l0 d0 show ?case
    by (auto simp: createTestCasesStep_eq distinct_update update_conv' testCaseOf_snoc m0)
qed


subsection \<open>The state a build leaves\<close>

lemma doBuildMessages_fresh:
  assumes "report s0 = report newMessagesBuilder" and "fullResult s0 = Some fr"
    and "testCases s0 = []" and "fullResultTiming s0 = None" and "eventDataCollected s0 = []"
    and "foldl (createTestCasesStep c (loadDocuments c (testCaseRuns s0))) ([], []) (testCaseRuns s0)
           = (tcs, linked)"
  shows "\<exists>s'. doBuildMessages c s0 = Some s'
    \<and> testCases s' = tcs \<and> testCaseRuns s' = linked
    \<and> gherkinDocuments s' = loadDocuments c (testCaseRuns s0)
    \<and> fullResultTiming s' = Some (timingOf c fr (map result linked))
    \<and> eventDataCollected s' = emitMessages (report s')
    \<and> buildMessagesPromise s' = buildMessagesPromise s0
    \<and> report s' =
        \<lparr> report_meta = Some (metaBuildMessage c),
          report_source = fst (documentsBuildMessages c (loadDocuments c (testCaseRuns s0))),
          report_gherkinDocument = snd (documentsBuildMessages c (loadDocuments c (testCaseRuns s0))),
          report_pickle = picklesBuildMessages c tcs,
          report_stepDefinition = [],
          report_hook = map (hookBuildMessage c \<circ> snd) (hooks s0),
          report_testRunStarted =
            Some \<lparr> timestamp = toCucumberTimestamp (startTime (timingOf c fr (map result linked))) \<rparr>,
          report_testCase = map (testCaseBuildMessage c \<circ> snd) tcs,
          report_testCaseRuns = concat (map (testCaseRunBuildMessages c) linked),
          report_testRunFinished =
            Some \<lparr> timestamp = toCucumberTimestamp
                      (startTime (timingOf c fr (map result linked))
                        + duration (timingOf c fr (map result linked))),
                   success = (fullStatus fr = RunPassed) \<rparr> \<rparr>"
  using assms
  by (simp add: doBuildMessages_def buildEventDataCollector_def addTestRunFinished_def
      addTestCaseRuns_def addTestCases_def addTestRunStarted_def addHooks_def addPickles_def
      addSourcesAndDocuments_def addMeta_def createTestCases_def loadFeaturesOfRuns_def
      getFullResultTiming_def timingOf_def newMessagesBuilder_def Let_def
      split: prod.splits option.splits)

lemma result_linked: "result (linkRun (eventRun c ev)) = snd ev"
  by (simp add: linkRun_def eventRun_def)

lemma session_state:
  "\<exists>s'. session c evs fr = Some s'
    \<and> testCaseRuns s' = map (linkRun \<circ> eventRun c) (filter (recorded c) evs)
    \<and> gherkinDocuments s' = loadDocuments c (map (eventRun c) (filter (recorded c) evs))
    \<and> distinct (map fst (testCases s'))
    \<and> (\<forall>t. map_of (testCases s') t
            = testCaseOf c (gherkinDocuments s') (map (eventRun c) (filter (recorded c) evs)) t)
    \<and> fullResultTiming s' = Some (timingOf c fr (map snd (filter (recorded c) evs)))
    \<and> eventDataCollected s' = emitMessages (report s')
    \<and> report s' = sessionReport c evs fr (testCases s') (hooks (observe c evs))"
proof -
  let ?rs = "map (eventRun c) (filter (recorded c) evs)"
  let ?s0 = "onEnd fr (observe c evs)"
  obtain tcs linked where
    f: "foldl (createTestCasesStep c (loadDocuments c ?rs)) ([], []) ?rs = (tcs, linked)"
    by (cases "foldl (createTestCasesStep c (loadDocuments c ?rs)) ([], []) ?rs")
  from createTestCases_foldl[OF f]
  have l: "linked = map linkRun ?rs" and d: "distinct (map fst tcs)"
    and m: "\<And>t. map_of tcs t = testCaseOf c (loadDocuments c ?rs) ?rs t"
    by auto
  have pre: "report ?s0 = report newMessagesBuilder" "fullResult ?s0 = Some fr"
    "testCases ?s0 = []" "fullResultTiming ?s0 = None" "eventDataCollected ?s0 = []"
    "testCaseRuns ?s0 = ?rs" "hooks ?s0 = hooks (observe c evs)"
    "buildMessagesPromise ?s0 = False"
    by (simp_all add: onEnd_def observe_frame observe_runs)
  from f have f': "foldl (createTestCasesStep c (loadDocuments c (testCaseRuns ?s0))) ([], [])
      (testCaseRuns ?s0) = (tcs, linked)"
    by (simp only: pre)
  from doBuildMessages_fresh[OF pre(1-5) f'] obtain s1 where
    s1: "doBuildMessages c ?s0 = Some s1" and
    st: "testCases s1 = tcs" "testCaseRuns s1 = linked"
      "gherkinDocuments s1 = loadDocuments c (testCaseRuns ?s0)"
      "fullResultTiming s1 = Some (timingOf c fr (map result linked))"
      "eventDataCollected s1 = emitMessages (report s1)" and
    rep: "report s1 =
        \<lparr> report_meta = Some (metaBuildMessage c),
          report_source = fst (documentsBuildMessages c (loadDocuments c (testCaseRuns ?s0))),
          report_gherkinDocument = snd (documentsBuildMessages c (loadDocuments c (testCaseRuns ?s0))),
          report_pickle = picklesBuildMessages c tcs,
          report_stepDefinition = [],
          report_hook = map (hookBuildMessage c \<circ> snd) (hooks ?s0),
          report_testRunStarted =
            Some \<lparr> timestamp = toCucumberTimestamp (startTime (timingOf c fr (map result linked))) \<rparr>,
          report_testCase = map (testCaseBuildMessage c \<circ> snd) tcs,
          report_testCaseRuns = concat (map (testCaseRunBuildMessages c) linked),
          report_testRunFinished =
            Some \<lparr> timestamp = toCucumberTimestamp
                      (startTime (timingOf c fr (map result linked))
                        + duration (timingOf c fr (map result linked))),
                   success = (fullStatus fr = RunPassed) \<rparr> \<rparr>"
    by blast
  have sess: "session c evs fr = Some (s1\<lparr> buildMessagesPromise := True \<rparr>)"
    by (simp add: session_def buildMessages_def pre(8) s1)
  have rl: "map result linked = map snd (filter (recorded c) evs)"
    unfolding l by (simp add: comp_def result_linked)
  have ll: "linked = map (linkRun \<circ> eventRun c) (filter (recorded c) evs)"
    unfolding l by simp
  show ?thesis
    unfolding sess
    by (rule exI[of _ "s1\<lparr> buildMessagesPromise := True \<rparr>"])
       (simp add: st rep pre(6,7) d m rl sessionReport_def ll[symmetric])
qed

subsection \<open>The order of the envelopes\<close>

lemma emitMessages_sessionReport:
  "emitMessages (sessionReport c evs fr tcs hs) =
     Meta (metaBuildMessage c)
     # map Source (report_source (sessionReport c evs fr tcs hs))
     @ map GherkinDocument (report_gherkinDocument (sessionReport c evs fr tcs hs))
     @ map Pickle (report_pickle (sessionReport c evs fr tcs hs))
     @ map Hook (report_hook (sessionReport c evs fr tcs hs))
     @ TestRunStarted \<lparr> timestamp = toCucumberTimestamp
                   (startTime (timingOf c fr (map snd (filter (recorded c) evs)))) \<rparr>
     # map TestCase (report_testCase (sessionReport c evs fr tcs hs))
     @ map RunAttempt (report_testCaseRuns (sessionReport c evs fr tcs hs))
     @ [TestRunFinished \<lparr> timestamp = toCucumberTimestamp
                   (startTime (timingOf c fr (map snd (filter (recorded c) evs)))
                     + duration (timingOf c fr (map snd (filter (recorded c) evs)))),
                success = (fullStatus fr = RunPassed) \<rparr>]"
  by (simp add: emitMessages_def sessionReport_def)

lemma sorted_map_const: "sorted (map (\<lambda>x. k :: nat) xs)"
  by (induction xs) simp_all

lemma ordered_shape:
  assumes "es = Meta m # map Source a @ map GherkinDocument b @ map Pickle p @ map Hook h
             @ TestRunStarted st # map TestCase tc @ map RunAttempt ra @ [TestRunFinished fin]"
  shows "sorted (map kindRank es)" "hd es = Meta m"
    "length (filter isTestRunStarted es) = 1" "length (filter isTestRunFinished es) = 1"
    "last es = TestRunFinished fin"
proof -
  show "sorted (map kindRank es)"
    unfolding assms by (auto simp: sorted_append comp_def sorted_map_const)
  show "hd es = Meta m" unfolding assms by simp
  show "length (filter isTestRunStarted es) = 1"
    unfolding assms by (simp add: filter_map comp_def)
  show "length (filter isTestRunFinished es) = 1"
    unfolding assms by (simp add: filter_map comp_def)
  show "last es = TestRunFinished fin" unfolding assms by simp
qed

text \<open>
  C2. For every completed build, whatever the observed events and the full result, the
  envelopes that \<^verbatim>\<open>emitMessages\<close> sends (and that the build itself has sent to the event data
  collector) are ordered by kind: the meta envelope is first; then come source and
  gherkinDocument envelopes, pickle envelopes, stepDefinition and hook envelopes, the
  testRunStarted envelope, testCase envelopes, the envelopes of the run attempts, and the
  testRunFinished envelope. There is exactly one testRunStarted envelope, which the order
  puts before every testCase envelope, and exactly one testRunFinished envelope, which is
  the last of the sequence.
\<close>

theorem report_envelopes_ordered_by_kind:
  "\<exists>s'. session c evs fr = Some s'
     \<and> eventDataCollected s' = emitMessages (report s')
     \<and> sorted (map kindRank (emitMessages (report s')))
     \<and> hd (emitMessages (report s')) = Meta (metaBuildMessage c)
     \<and> length (filter isTestRunStarted (emitMessages (report s'))) = 1
     \<and> length (filter isTestRunFinished (emitMessages (report s'))) = 1
     \<and> isTestRunFinished (last (emitMessages (report s')))"
proof -
  from session_state[of c evs fr] obtain s' where
    s: "session c evs fr = Some s'" and
    e: "eventDataCollected s' = emitMessages (report s')" and
    r: "report s' = sessionReport c evs fr (testCases s') (hooks (observe c evs))"
    by blast
  note shape = ordered_shape[OF emitMessages_sessionReport[of c evs fr "testCases s'" "hooks (observe c evs)"]]
  show ?thesis
  proof (rule exI[of _ s'])
    show "session c evs fr = Some s'
     \<and> eventDataCollected s' = emitMessages (report s')
     \<and> sorted (map kindRank (emitMessages (report s')))
     \<and> hd (emitMessages (report s')) = Meta (metaBuildMessage c)
     \<and> length (filter isTestRunStarted (emitMessages (report s'))) = 1
     \<and> length (filter isTestRunFinished (emitMessages (report s'))) = 1
     \<and> isTestRunFinished (last (emitMessages (report s')))"
      using s e shape by (simp add: r)
  qed
qed

theorem report_envelopes_ordered_by_kind_witness:
  "map_option (emitMessages \<circ> report) (session exampleCollaborators exampleEvents hostTimedResult)
     = Some [Meta ''playwright-bdd'', Source ''features/cukes.feature'',
             GherkinDocument ''features/cukes.feature'', Pickle ''a'', Pickle ''b'',
             Hook ''Before'', TestRunStarted \<lparr> timestamp = Timestamp 500 \<rparr>,
             TestCase ''a'', TestCase ''b'',
             RunAttempt (TestCaseStarted ''a''), RunAttempt (TestCaseFinished ''a''),
             RunAttempt (TestCaseStarted ''b''), RunAttempt (TestCaseFinished ''b''),
             RunAttempt (TestCaseStarted ''a''), RunAttempt (TestCaseFinished ''a''),
             TestRunFinished \<lparr> timestamp = Timestamp 1500, success = True \<rparr>]
   \<and> map_option (\<lambda>s. sorted (map kindRank (emitMessages (report s)))
                  \<and> length (filter isTestRunStarted (emitMessages (report s))) = 1
                  \<and> length (filter isTestRunFinished (emitMessages (report s))) = 1
                  \<and> isTestRunFinished (last (emitMessages (report s))))
        (session exampleCollaborators exampleEvents hostTimedResult)
     = Some True"
proof -
  have ev: "map_option (emitMessages \<circ> report) (session exampleCollaborators exampleEvents hostTimedResult)
     = Some [Meta ''playwright-bdd'', Source ''features/cukes.feature'',
             GherkinDocument ''features/cukes.feature'', Pickle ''a'', Pickle ''b'',
             Hook ''Before'', TestRunStarted \<lparr> timestamp = Timestamp 500 \<rparr>,
             TestCase ''a'', TestCase ''b'',
             RunAttempt (TestCaseStarted ''a''), RunAttempt (TestCaseFinished ''a''),
             RunAttempt (TestCaseStarted ''b''), RunAttempt (TestCaseFinished ''b''),
             RunAttempt (TestCaseStarted ''a''), RunAttempt (TestCaseFinished ''a''),
             TestRunFinished \<lparr> timestamp = Timestamp 1500, success = True \<rparr>]"
    by code_simp
  from report_envelopes_ordered_by_kind[of exampleCollaborators exampleEvents hostTimedResult]
  obtain s' where "session exampleCollaborators exampleEvents hostTimedResult = Some s'"
    and "sorted (map kindRank (emitMessages (report s')))"
    and "length (filter isTestRunStarted (emitMessages (report s'))) = 1"
    and "length (filter isTestRunFinished (emitMessages (report s'))) = 1"
    and "isTestRunFinished (last (emitMessages (report s')))"
    by blast
  then have "map_option (\<lambda>s. sorted (map kindRank (emitMessages (report s)))
                  \<and> length (filter isTestRunStarted (emitMessages (report s))) = 1
                  \<and> length (filter isTestRunFinished (emitMessages (report s))) = 1
                  \<and> isTestRunFinished (last (emitMessages (report s))))
        (session exampleCollaborators exampleEvents hostTimedResult)
     = Some True"
    by simp
  with ev show ?thesis by (rule conjI)
qed

subsection \<open>Grouping by test id\<close>

lemma testCaseOf_runs:
  assumes "testCaseOf c docs (map (eventRun c) evs) t = Some tc"
  shows "tc_id tc = t"
    and "map (\<lambda>r. (test r, result r)) (runs tc) = filter (\<lambda>ev. test_id (fst ev) = t) evs"
    and "\<forall>r \<in> set (runs tc). testCase r = Some t"
    and "runs tc \<noteq> []"
proof -
  let ?rs = "filter (\<lambda>r. test_id (test r) = t) (map (eventRun c) evs)"
  from assms have ne: "?rs \<noteq> []" and tc: "tc = \<lparr> tc_id = t,
      gherkinDocs = getDocumentsForProject c docs (projectInfo (hd ?rs)),
      runs = map linkRun ?rs \<rparr>"
    by (auto simp: testCaseOf_def split: list.splits)
  show "tc_id tc = t" by (simp add: tc)
  have "map (\<lambda>r. (test r, result r)) (map linkRun ?rs)
      = filter (\<lambda>ev. test_id (fst ev) = t) evs"
    by (induction evs) (simp_all add: linkRun_def eventRun_def)
  then show "map (\<lambda>r. (test r, result r)) (runs tc) = filter (\<lambda>ev. test_id (fst ev) = t) evs"
    by (simp add: tc)
  show "\<forall>r \<in> set (runs tc). testCase r = Some t"
    by (auto simp: tc linkRun_def)
  show "runs tc \<noteq> []" using ne by (simp add: tc)
qed

lemma testCaseOf_None:
  "(testCaseOf c docs (map (eventRun c) evs) t = None)
     = (filter (\<lambda>ev. test_id (fst ev) = t) evs = [])"
  by (induction evs) (simp_all add: testCaseOf_def eventRun_def split: list.splits)

text \<open>
  C3 (as amended). For every sequence of test-end events, the events that \<^verbatim>\<open>onTestEnd\<close>
  records (those of a BDD project whose test is not expected to be skipped) are grouped by
  test id: the keys of the test case map are distinct, a test id has a test case exactly when
  a recorded event carries it, the test case is the one the specification describes (created
  for the first such event), its run list holds one run per recorded event with that id, in
  the order of the events, and every run in it refers back to this test case and to no other.
\<close>

theorem recorded_events_grouped_by_test_id:
  "\<exists>s'. session c evs fr = Some s'
     \<and> testCaseRuns s' = map (linkRun \<circ> eventRun c) (filter (recorded c) evs)
     \<and> distinct (map fst (testCases s'))
     \<and> (\<forall>t. map_of (testCases s') t
             = testCaseOf c (gherkinDocuments s') (map (eventRun c) (filter (recorded c) evs)) t)
     \<and> (\<forall>t. (map_of (testCases s') t = None)
             = (filter (\<lambda>ev. test_id (fst ev) = t) (filter (recorded c) evs) = []))
     \<and> (\<forall>t tc. map_of (testCases s') t = Some tc \<longrightarrow>
            tc_id tc = t
          \<and> map (\<lambda>r. (test r, result r)) (runs tc)
              = filter (\<lambda>ev. test_id (fst ev) = t) (filter (recorded c) evs)
          \<and> (\<forall>r \<in> set (runs tc). testCase r = Some t))"
proof -
  from session_state[of c evs fr] obtain s' where
    s: "session c evs fr = Some s'" and
    rs: "testCaseRuns s' = map (linkRun \<circ> eventRun c) (filter (recorded c) evs)" and
    d: "distinct (map fst (testCases s'))" and
    m: "\<And>t. map_of (testCases s') t
             = testCaseOf c (gherkinDocuments s') (map (eventRun c) (filter (recorded c) evs)) t"
    by blast
  show ?thesis
  proof (intro exI conjI allI impI)
    show "session c evs fr = Some s'" by (rule s)
    show "testCaseRuns s' = map (linkRun \<circ> eventRun c) (filter (recorded c) evs)" by (rule rs)
    show "distinct (map fst (testCases s'))" by (rule d)
    show "map_of (testCases s') t
             = testCaseOf c (gherkinDocuments s') (map (eventRun c) (filter (recorded c) evs)) t"
      for t by (rule m)
    show "(map_of (testCases s') t = None)
             = (filter (\<lambda>ev. test_id (fst ev) = t) (filter (recorded c) evs) = [])" for t
      unfolding m by (rule testCaseOf_None)
    show "tc_id tc = t" if "map_of (testCases s') t = Some tc" for t tc
      using that unfolding m by (rule testCaseOf_runs)
    show "map (\<lambda>r. (test r, result r)) (runs tc)
              = filter (\<lambda>ev. test_id (fst ev) = t) (filter (recorded c) evs)"
      if "map_of (testCases s') t = Some tc" for t tc
      using that unfolding m by (rule testCaseOf_runs)
    show "\<forall>r \<in> set (runs tc). testCase r = Some t"
      if "map_of (testCases s') t = Some tc" for t tc
      using that unfolding m by (rule testCaseOf_runs)
  qed
qed

lemmas example_session_defs =
  exampleEvents_def exampleCollaborators_def recorded_def bddTest_def skippedTest_def
  plainTest_def attempt_def

theorem recorded_events_grouped_by_test_id_witness:
  "map_option (\<lambda>s. map_option (\<lambda>tc. map (\<lambda>run. retry (result run)) (runs tc))
                      (map_of (testCases s) ''a''))
       (session exampleCollaborators exampleEvents untimedResult) = Some (Some [0, 1])
   \<and> map_option (\<lambda>s. map_option (\<lambda>tc. map (\<lambda>run. retry (result run)) (runs tc))
                      (map_of (testCases s) ''b''))
       (session exampleCollaborators exampleEvents untimedResult) = Some (Some [0])
   \<and> map_option (\<lambda>s. map fst (testCases s))
       (session exampleCollaborators exampleEvents untimedResult) = Some [''a'', ''b'']"
proof -
  from recorded_events_grouped_by_test_id[of exampleCollaborators exampleEvents untimedResult]
  obtain s' where s: "session exampleCollaborators exampleEvents untimedResult = Some s'"
    and m: "\<And>t. map_of (testCases s') t
             = testCaseOf exampleCollaborators (gherkinDocuments s')
                 (map (eventRun exampleCollaborators) (filter (recorded exampleCollaborators) exampleEvents)) t"
    by blast
  have a: "map_option (\<lambda>tc. map (\<lambda>run. retry (result run)) (runs tc)) (map_of (testCases s') ''a'')
      = Some [0, 1]"
    unfolding m by (simp add: testCaseOf_def example_session_defs eventRun_def linkRun_def)
  have b: "map_option (\<lambda>tc. map (\<lambda>run. retry (result run)) (runs tc)) (map_of (testCases s') ''b'')
      = Some [0]"
    unfolding m by (simp add: testCaseOf_def example_session_defs eventRun_def linkRun_def)
  have k: "map_option (\<lambda>s. map fst (testCases s))
       (session exampleCollaborators exampleEvents untimedResult) = Some [''a'', ''b'']"
    by code_simp
  from a b k show ?thesis by (simp add: s)
qed

text \<open>
  The claim as stated fails for an event that \<^verbatim>\<open>onTestEnd\<close> does not record: the session
  observes one test-end event, with test id \<^verbatim>\<open>s\<close> and expected status skipped, and the
  build holds no run and no test case at all, so the event is in no test case.
\<close>

theorem expected_skipped_event_is_not_grouped:
  "map (\<lambda>ev. (test_id (fst ev), expectedStatus (fst ev))) [(skippedTest, attempt 950 0 Skipped 0)]
     = [(''s'', Skipped)]
   \<and> map_option testCaseRuns
       (session exampleCollaborators [(skippedTest, attempt 950 0 Skipped 0)] untimedResult)
     = Some []
   \<and> map_option testCases
       (session exampleCollaborators [(skippedTest, attempt 950 0 Skipped 0)] untimedResult)
     = Some []"
  by code_simp

subsection \<open>Events that are not recorded\<close>

lemma unrecorded_test_absent:
  assumes "\<forall>ev \<in> set evs. test_id (fst ev) = tid \<longrightarrow> \<not> recorded c ev"
  shows "\<exists>s'. session c evs fr = Some s' \<and> map_of (testCases s') tid = None
           \<and> (\<forall>run \<in> set (testCaseRuns s'). test_id (test run) \<noteq> tid)"
proof -
  from session_state[of c evs fr] obtain s' where
    s: "session c evs fr = Some s'" and
    rs: "testCaseRuns s' = map (linkRun \<circ> eventRun c) (filter (recorded c) evs)" and
    m: "\<And>t. map_of (testCases s') t
             = testCaseOf c (gherkinDocuments s') (map (eventRun c) (filter (recorded c) evs)) t"
    by blast
  from assms have e: "filter (\<lambda>ev. test_id (fst ev) = tid) (filter (recorded c) evs) = []"
    by (auto simp: filter_empty_conv)
  have n: "map_of (testCases s') tid = None" unfolding m testCaseOf_None by (rule e)
  have "\<forall>run \<in> set (testCaseRuns s'). test_id (test run) \<noteq> tid"
    using assms unfolding rs by (auto simp: linkRun_def eventRun_def)
  with s n show ?thesis by blast
qed

lemma session_skip:
  assumes "\<And>s. onTestEnd c t r s = s"
  shows "session c (before @ [(t, r)] @ after) fr = session c (before @ after) fr"
  by (simp only: session_def observe_skip[OF assms])

text \<open>
  C7. For every test-end event whose test has the expected status skipped, \<^verbatim>\<open>onTestEnd\<close>
  leaves the builder as it was, so no run is added, and a session builds the same whether or
  not it has observed the event. A test all of whose events carry the expected status
  skipped has no test case and no run in the build.
\<close>

theorem expected_skipped_test_not_recorded:
  assumes "expectedStatus t = Skipped"
  shows "onTestEnd c t r s = s
    \<and> session c (before @ [(t, r)] @ after) fr = session c (before @ after) fr
    \<and> ((\<forall>ev \<in> set evs. test_id (fst ev) = test_id t \<longrightarrow> expectedStatus (fst ev) = Skipped)
         \<longrightarrow> (\<exists>s'. session c evs fr = Some s' \<and> map_of (testCases s') (test_id t) = None
                \<and> (\<forall>run \<in> set (testCaseRuns s'). test_id (test run) \<noteq> test_id t)))"
proof -
  have noop: "onTestEnd c t r s = s" for s
    using assms by (simp add: onTestEnd_def)
  have absent: "(\<forall>ev \<in> set evs. test_id (fst ev) = test_id t \<longrightarrow> expectedStatus (fst ev) = Skipped)
         \<longrightarrow> (\<exists>s'. session c evs fr = Some s' \<and> map_of (testCases s') (test_id t) = None
                \<and> (\<forall>run \<in> set (testCaseRuns s'). test_id (test run) \<noteq> test_id t))"
  proof
    assume "\<forall>ev \<in> set evs. test_id (fst ev) = test_id t \<longrightarrow> expectedStatus (fst ev) = Skipped"
    then have "\<forall>ev \<in> set evs. test_id (fst ev) = test_id t \<longrightarrow> \<not> recorded c ev"
      by (simp add: recorded_def)
    then show "\<exists>s'. session c evs fr = Some s' \<and> map_of (testCases s') (test_id t) = None
                \<and> (\<forall>run \<in> set (testCaseRuns s'). test_id (test run) \<noteq> test_id t)"
      by (rule unrecorded_test_absent)
  qed
  from noop session_skip[of c t r before after fr, OF noop] absent show ?thesis by blast
qed

theorem expected_skipped_test_not_recorded_witness:
  "expectedStatus skippedTest = Skipped
   \<and> onTestEnd exampleCollaborators skippedTest (attempt 950 0 Skipped 0) newMessagesBuilder
       = newMessagesBuilder
   \<and> map_option (\<lambda>s. map_of (testCases s) ''s'')
       (session exampleCollaborators exampleEvents untimedResult) = Some None
   \<and> map_option (\<lambda>s. map (\<lambda>run. test_id (test run)) (testCaseRuns s))
       (session exampleCollaborators exampleEvents untimedResult) = Some [''a'', ''b'', ''a'']"
proof -
  have h: "expectedStatus skippedTest = Skipped" by code_simp
  have i: "test_id skippedTest = ''s''" by code_simp
  have all: "\<forall>ev \<in> set exampleEvents.
      test_id (fst ev) = test_id skippedTest \<longrightarrow> expectedStatus (fst ev) = Skipped"
    by code_simp
  have ids: "map_option (\<lambda>s. map (\<lambda>run. test_id (test run)) (testCaseRuns s))
       (session exampleCollaborators exampleEvents untimedResult) = Some [''a'', ''b'', ''a'']"
    by code_simp
  note skipped = expected_skipped_test_not_recorded[OF h,
      where c = exampleCollaborators and r = "attempt 950 0 Skipped 0"
        and s = newMessagesBuilder and evs = exampleEvents and fr = untimedResult]
  from skipped have noop:
    "onTestEnd exampleCollaborators skippedTest (attempt 950 0 Skipped 0) newMessagesBuilder
       = newMessagesBuilder"
    by (rule conjunct1)
  from skipped all obtain s' where
    "session exampleCollaborators exampleEvents untimedResult = Some s'"
    "map_of (testCases s') (test_id skippedTest) = None"
    by blast
  then have none: "map_option (\<lambda>s. map_of (testCases s) ''s'')
       (session exampleCollaborators exampleEvents untimedResult) = Some None"
    by (simp add: i)
  from h noop none ids show ?thesis by blast
qed

text \<open>
  C10. For every test-end event whose test belongs to a project whose test directory has no
  BDD configuration, whatever the test's expected status and the result, \<^verbatim>\<open>onTestEnd\<close>
  leaves the builder as it was, and a session builds the same state, report and envelopes
  included, whether or not it has observed the event. A test all of whose events come from
  such projects has no test case and no run in the build.
\<close>

theorem non_bdd_project_test_not_recorded:
  assumes "\<not> hasBddConfig c (projectTestDir t)"
  shows "onTestEnd c t r s = s
    \<and> session c (before @ [(t, r)] @ after) fr = session c (before @ after) fr
    \<and> ((\<forall>ev \<in> set evs. test_id (fst ev) = test_id t \<longrightarrow> \<not> hasBddConfig c (projectTestDir (fst ev)))
         \<longrightarrow> (\<exists>s'. session c evs fr = Some s' \<and> map_of (testCases s') (test_id t) = None
                \<and> (\<forall>run \<in> set (testCaseRuns s'). test_id (test run) \<noteq> test_id t)))"
proof -
  have noop: "onTestEnd c t r s = s" for s
    using assms by (simp add: onTestEnd_def)
  have absent: "(\<forall>ev \<in> set evs. test_id (fst ev) = test_id t \<longrightarrow> \<not> hasBddConfig c (projectTestDir (fst ev)))
         \<longrightarrow> (\<exists>s'. session c evs fr = Some s' \<and> map_of (testCases s') (test_id t) = None
                \<and> (\<forall>run \<in> set (testCaseRuns s'). test_id (test run) \<noteq> test_id t))"
  proof
    assume "\<forall>ev \<in> set evs. test_id (fst ev) = test_id t \<longrightarrow> \<not> hasBddConfig c (projectTestDir (fst ev))"
    then have "\<forall>ev \<in> set evs. test_id (fst ev) = test_id t \<longrightarrow> \<not> recorded c ev"
      by (simp add: recorded_def)
    then show "\<exists>s'. session c evs fr = Some s' \<and> map_of (testCases s') (test_id t) = None
                \<and> (\<forall>run \<in> set (testCaseRuns s'). test_id (test run) \<noteq> test_id t)"
      by (rule unrecorded_test_absent)
  qed
  from noop session_skip[of c t r before after fr, OF noop] absent show ?thesis by blast
qed

theorem non_bdd_project_test_not_recorded_witness:
  "\<not> hasBddConfig exampleCollaborators (projectTestDir plainTest)
   \<and> onTestEnd exampleCollaborators plainTest (attempt 800 10 Passed 0) newMessagesBuilder
       = newMessagesBuilder
   \<and> session exampleCollaborators
        ([(bddTest ''a'', attempt 1000 50 Failed 0)] @ [(plainTest, attempt 800 10 Passed 0)]
          @ [(bddTest ''a'', attempt 1100 40 Passed 1)]) untimedResult
     = session exampleCollaborators
        ([(bddTest ''a'', attempt 1000 50 Failed 0)] @ [(bddTest ''a'', attempt 1100 40 Passed 1)])
        untimedResult
   \<and> map_option (\<lambda>s. map_of (testCases s) ''p'')
       (session exampleCollaborators exampleEvents untimedResult) = Some None"
proof -
  have h: "\<not> hasBddConfig exampleCollaborators (projectTestDir plainTest)" by code_simp
  have i: "test_id plainTest = ''p''" by code_simp
  have all: "\<forall>ev \<in> set exampleEvents.
      test_id (fst ev) = test_id plainTest
        \<longrightarrow> \<not> hasBddConfig exampleCollaborators (projectTestDir (fst ev))"
    by code_simp
  note plain = non_bdd_project_test_not_recorded[OF h,
      where r = "attempt 800 10 Passed 0" and s = newMessagesBuilder
        and before = "[(bddTest ''a'', attempt 1000 50 Failed 0)]"
        and after = "[(bddTest ''a'', attempt 1100 40 Passed 1)]"
        and evs = exampleEvents and fr = untimedResult]
  from plain have noop:
    "onTestEnd exampleCollaborators plainTest (attempt 800 10 Passed 0) newMessagesBuilder
       = newMessagesBuilder"
    by (rule conjunct1)
  from plain have same: "session exampleCollaborators
        ([(bddTest ''a'', attempt 1000 50 Failed 0)] @ [(plainTest, attempt 800 10 Passed 0)]
          @ [(bddTest ''a'', attempt 1100 40 Passed 1)]) untimedResult
     = session exampleCollaborators
        ([(bddTest ''a'', attempt 1000 50 Failed 0)] @ [(bddTest ''a'', attempt 1100 40 Passed 1)])
        untimedResult"
    by blast
  from plain all obtain s' where
    "session exampleCollaborators exampleEvents untimedResult = Some s'"
    "map_of (testCases s') (test_id plainTest) = None"
    by blast
  then have none: "map_option (\<lambda>s. map_of (testCases s) ''p'')
       (session exampleCollaborators exampleEvents untimedResult) = Some None"
    by (simp add: i)
  from h noop same none show ?thesis by blast
qed

subsection \<open>Timestamps of the run\<close>

lemma foldl_min_Min: "foldl min (a::int) xs = Min (set (a # xs))"
proof (induction xs arbitrary: a)
  case Nil
  show ?case by simp
next
  case (Cons x xs)
  have "foldl min a (x # xs) = foldl min (min a x) xs" by simp
  also have "\<dots> = Min (set (min a x # xs))" by (rule Cons.IH)
  also have "\<dots> = Min (set (a # x # xs))"
    by (cases "xs = []") (simp_all add: min.assoc)
  finally show ?case .
qed

lemma calcMinMaxByArray_start:
  "items \<noteq> [] \<Longrightarrow> startTime (calcMinMaxByArray n items) = Min (set (map startTime items))"
  by (cases items) (simp_all add: calcMinMaxByArray_def Let_def foldl_min_Min del: foldl_Cons)

text \<open>
  C8. In every completed build the testRunStarted timestamp is the start time of the timing
  the builder settles on, and the testRunFinished timestamp is that start time plus the
  timing's duration; so with a duration that is not negative the testRunFinished timestamp
  does not precede the testRunStarted timestamp. When the full result lacks \<^verbatim>\<open>startTime\<close>
  or \<^verbatim>\<open>duration\<close> and at least one run was recorded, the start time is the earliest start
  time of the recorded runs; when the full result has both, they are the timing.
\<close>

theorem run_timestamps:
  "\<exists>s' started finished timing.
       session c evs fr = Some s'
     \<and> report_testRunStarted (report s') = Some started
     \<and> report_testRunFinished (report s') = Some finished
     \<and> fullResultTiming s' = Some timing
     \<and> timestamp started = toCucumberTimestamp (startTime timing)
     \<and> timestamp finished = toCucumberTimestamp (startTime timing + duration timing)
     \<and> (0 \<le> duration timing \<longrightarrow> \<not> precedes (timestamp finished) (timestamp started))
     \<and> ((fullStartTime fr = None \<or> fullDuration fr = None) \<and> filter (recorded c) evs \<noteq> []
          \<longrightarrow> startTime timing = Min (set (map (startTime \<circ> snd) (filter (recorded c) evs))))
     \<and> (\<forall>st d. fullStartTime fr = Some st \<and> fullDuration fr = Some d
          \<longrightarrow> startTime timing = st \<and> duration timing = d)"
proof -
  let ?tm = "timingOf c fr (map snd (filter (recorded c) evs))"
  from session_state[of c evs fr] obtain s' where
    s: "session c evs fr = Some s'" and
    t: "fullResultTiming s' = Some ?tm" and
    r: "report s' = sessionReport c evs fr (testCases s') (hooks (observe c evs))"
    by blast
  have fallback: "(fullStartTime fr = None \<or> fullDuration fr = None) \<and> filter (recorded c) evs \<noteq> []
          \<longrightarrow> startTime ?tm = Min (set (map (startTime \<circ> snd) (filter (recorded c) evs)))"
    by (auto simp: timingOf_def calcMinMaxByArray_start split: option.splits)
  have explicit: "\<forall>st d. fullStartTime fr = Some st \<and> fullDuration fr = Some d
          \<longrightarrow> startTime ?tm = st \<and> duration ?tm = d"
    by (simp add: timingOf_def)
  have order: "0 \<le> duration ?tm \<longrightarrow>
     \<not> precedes (toCucumberTimestamp (startTime ?tm + duration ?tm)) (toCucumberTimestamp (startTime ?tm))"
    by (simp add: toCucumberTimestamp_def)
  let ?started = "\<lparr> timestamp = toCucumberTimestamp (startTime ?tm) \<rparr>"
  let ?finished = "\<lparr> timestamp = toCucumberTimestamp (startTime ?tm + duration ?tm),
                     success = (fullStatus fr = RunPassed) \<rparr>"
  have st: "report_testRunStarted (report s') = Some ?started"
    and fin: "report_testRunFinished (report s') = Some ?finished"
    by (simp_all add: r sessionReport_def)
  show ?thesis
  proof (intro exI conjI)
    show "session c evs fr = Some s'" by (rule s)
    show "report_testRunStarted (report s') = Some ?started" by (rule st)
    show "report_testRunFinished (report s') = Some ?finished" by (rule fin)
    show "fullResultTiming s' = Some ?tm" by (rule t)
    show "timestamp ?started = toCucumberTimestamp (startTime ?tm)" by simp
    show "timestamp ?finished = toCucumberTimestamp (startTime ?tm + duration ?tm)" by simp
    show "0 \<le> duration ?tm \<longrightarrow> \<not> precedes (timestamp ?finished) (timestamp ?started)"
      using order by simp
    show "(fullStartTime fr = None \<or> fullDuration fr = None) \<and> filter (recorded c) evs \<noteq> []
          \<longrightarrow> startTime ?tm = Min (set (map (startTime \<circ> snd) (filter (recorded c) evs)))"
      by (rule fallback)
    show "\<forall>st d. fullStartTime fr = Some st \<and> fullDuration fr = Some d
          \<longrightarrow> startTime ?tm = st \<and> duration ?tm = d"
      by (rule explicit)
  qed
qed

theorem run_timestamps_witness:
  "map_option (\<lambda>s. map_option timestamp (report_testRunStarted (report s)))
       (session exampleCollaborators exampleEvents untimedResult) = Some (Some (Timestamp 900))
   \<and> map_option (\<lambda>s. (map_option timestamp (report_testRunStarted (report s)),
                       map_option timestamp (report_testRunFinished (report s))))
       (session exampleCollaborators exampleEvents hostTimedResult)
     = Some (Some (Timestamp 500), Some (Timestamp 1500))"
proof -
  have u: "(fullStartTime untimedResult = None \<or> fullDuration untimedResult = None)
      \<and> filter (recorded exampleCollaborators) exampleEvents \<noteq> []"
    by code_simp
  have mn: "Min (set (map (startTime \<circ> snd) (filter (recorded exampleCollaborators) exampleEvents)))
      = 900"
    by code_simp
  from run_timestamps[of exampleCollaborators exampleEvents untimedResult]
  obtain s1 started1 finished1 timing1 where all1:
    "session exampleCollaborators exampleEvents untimedResult = Some s1
     \<and> report_testRunStarted (report s1) = Some started1
     \<and> report_testRunFinished (report s1) = Some finished1
     \<and> fullResultTiming s1 = Some timing1
     \<and> timestamp started1 = toCucumberTimestamp (startTime timing1)
     \<and> timestamp finished1 = toCucumberTimestamp (startTime timing1 + duration timing1)
     \<and> (0 \<le> duration timing1 \<longrightarrow> \<not> precedes (timestamp finished1) (timestamp started1))
     \<and> ((fullStartTime untimedResult = None \<or> fullDuration untimedResult = None)
          \<and> filter (recorded exampleCollaborators) exampleEvents \<noteq> []
          \<longrightarrow> startTime timing1
              = Min (set (map (startTime \<circ> snd) (filter (recorded exampleCollaborators) exampleEvents))))
     \<and> (\<forall>st d. fullStartTime untimedResult = Some st \<and> fullDuration untimedResult = Some d
          \<longrightarrow> startTime timing1 = st \<and> duration timing1 = d)"
    by (elim exE) (rule that)
  from all1 u mn have "startTime timing1 = 900" by simp
  with all1 have first: "map_option (\<lambda>s. map_option timestamp (report_testRunStarted (report s)))
       (session exampleCollaborators exampleEvents untimedResult) = Some (Some (Timestamp 900))"
    by (simp add: toCucumberTimestamp_def)
  have h: "fullStartTime hostTimedResult = Some 500 \<and> fullDuration hostTimedResult = Some 1000"
    by code_simp
  from run_timestamps[of exampleCollaborators exampleEvents hostTimedResult]
  obtain s2 started2 finished2 timing2 where all2:
    "session exampleCollaborators exampleEvents hostTimedResult = Some s2
     \<and> report_testRunStarted (report s2) = Some started2
     \<and> report_testRunFinished (report s2) = Some finished2
     \<and> fullResultTiming s2 = Some timing2
     \<and> timestamp started2 = toCucumberTimestamp (startTime timing2)
     \<and> timestamp finished2 = toCucumberTimestamp (startTime timing2 + duration timing2)
     \<and> (0 \<le> duration timing2 \<longrightarrow> \<not> precedes (timestamp finished2) (timestamp started2))
     \<and> ((fullStartTime hostTimedResult = None \<or> fullDuration hostTimedResult = None)
          \<and> filter (recorded exampleCollaborators) exampleEvents \<noteq> []
          \<longrightarrow> startTime timing2
              = Min (set (map (startTime \<circ> snd) (filter (recorded exampleCollaborators) exampleEvents))))
     \<and> (\<forall>st d. fullStartTime hostTimedResult = Some st \<and> fullDuration hostTimedResult = Some d
          \<longrightarrow> startTime timing2 = st \<and> duration timing2 = d)"
    by (elim exE) (rule that)
  from all2 h have "startTime timing2 = 500 \<and> duration timing2 = 1000" by blast
  with all2 have second: "map_option (\<lambda>s. (map_option timestamp (report_testRunStarted (report s)),
                       map_option timestamp (report_testRunFinished (report s))))
       (session exampleCollaborators exampleEvents hostTimedResult)
     = Some (Some (Timestamp 500), Some (Timestamp 1500))"
    by (simp add: toCucumberTimestamp_def)
  from first second show ?thesis by (rule conjI)
qed

end
